theory Spec2Isabelle
  imports Main "HOL-Library.Word"
begin

unbundle bit_operations_syntax

section \<open>Machine data shared by the three viewers\<close>

type_synonym u8 = "8 word"
type_synonym u16 = "16 word"
type_synonym u32 = "32 word"
type_synonym u64 = "64 word"

text \<open>
  Physical memory is a function from physical addresses to bytes. \<open>phys_to_virt\<close> is a
  bijection between physical addresses and the kernel's direct mapping, so a pointer
  obtained from it is named here by the physical address it maps.
\<close>

type_synonym phys_mem = "nat \<Rightarrow> u8"

definition phys_to_virt :: "nat \<Rightarrow> nat" where
  "phys_to_virt phys_addr = phys_addr"

text \<open>\<open>*(uint32_t *)p\<close> on x86: four bytes, least significant first.\<close>

definition read_u32 :: "phys_mem \<Rightarrow> nat \<Rightarrow> u32" where
  "read_u32 mem p =
     word_of_nat (unat (mem p) + 2 ^ 8 * unat (mem (p + 1))
                  + 2 ^ 16 * unat (mem (p + 2)) + 2 ^ 24 * unat (mem (p + 3)))"

text \<open>A two-byte field, least significant byte first.\<close>

definition read_u16 :: "phys_mem \<Rightarrow> nat \<Rightarrow> u16" where
  "read_u16 mem p = word_of_nat (unat (mem p) + 2 ^ 8 * unat (mem (p + 1)))"

text \<open>
  The three error kinds. In the C code each of them is the return value \<open>-ENODEV\<close>;
  they differ by the place that returns it (and by the message logged there).
\<close>

datatype error = NotFound | InvalidSignature | InvalidRegisterContents

definition ENODEV :: int where
  "ENODEV = 19"

definition errno_of :: "error \<Rightarrow> int" where
  "errno_of e = - ENODEV"

subsection \<open>The conversions of \<open>seq_printf\<close>\<close>

definition digit_char :: "nat \<Rightarrow> char" where
  "digit_char d = ''0123456789ABCDEF'' ! (d mod 16)"

text \<open>The digits of a number in base \<open>b\<close>, most significant first, at least one digit.\<close>

function num_str :: "nat \<Rightarrow> nat \<Rightarrow> string" where
  "num_str b n =
     (if n < b \<or> b < 2 then [digit_char n]
      else num_str b (n div b) @ [digit_char (n mod b)])"
  by pat_completeness auto
termination
  by (relation "measure (\<lambda>(b, n). n)") auto

text \<open>\<open>%0wX\<close> and \<open>%X\<close> (width 0): upper-case hexadecimal, zero-padded to the width.\<close>

definition fmt_X :: "nat \<Rightarrow> nat \<Rightarrow> string" where
  "fmt_X w n = replicate (w - length (num_str 16 n)) (CHR ''0'') @ num_str 16 n"

text \<open>\<open>%0wd\<close> and \<open>%d\<close> (width 0): signed decimal; the sign counts in the width.\<close>

definition fmt_d :: "nat \<Rightarrow> int \<Rightarrow> string" where
  "fmt_d w i =
     (if i < 0
      then CHR ''-'' # replicate (w - Suc (length (num_str 10 (nat (- i))))) (CHR ''0'')
             @ num_str 10 (nat (- i))
      else replicate (w - length (num_str 10 (nat i))) (CHR ''0'') @ num_str 10 (nat i))"

section \<open>mp: the MP Configuration Table viewer\<close>

definition MPFP_SIGNATURE :: u32 where
  "MPFP_SIGNATURE = 0x5f504d5f"

definition MPCT_SIGNATURE :: u32 where
  "MPCT_SIGNATURE = 0x504d4350"

definition MPFP_SIGNATURE_BYTES :: nat where
  "MPFP_SIGNATURE_BYTES = 4"

definition MPCT_SIGNATURE_BYTES :: nat where
  "MPCT_SIGNATURE_BYTES = 4"

definition MPCT_ENTRY_TYPE_PROCESSOR :: u8 where
  "MPCT_ENTRY_TYPE_PROCESSOR = 0"

definition MPCT_ENTRY_BYTES_PROCESSOR :: nat where
  "MPCT_ENTRY_BYTES_PROCESSOR = 20"

definition MPCT_ENTRY_BYTES_DEFAULT :: nat where
  "MPCT_ENTRY_BYTES_DEFAULT = 8"

definition MPFP_STRUCTURE_BYTES :: nat where
  "MPFP_STRUCTURE_BYTES = 16"

definition MPCT_HEADER_BYTES :: nat where
  "MPCT_HEADER_BYTES = 44"

text \<open>The module's globals.\<close>

record mp_globals =
  base_mpct_bytes :: u16
  mpfp :: nat
  mpct :: nat

text \<open>
  The search loop of \<open>mp_setup\<close>. Its state is \<open>phys_addr\<close> and the global \<open>mpfp\<close>;
  it returns both as they are when the loop is left, by \<open>break\<close> or by the bound.
\<close>

function mp_scan :: "phys_mem \<Rightarrow> nat \<Rightarrow> nat \<Rightarrow> nat \<times> nat" where
  "mp_scan mem phys_addr p =
     (if phys_addr \<le> 0xFFFFF
      then (if read_u32 mem (phys_to_virt phys_addr) = MPFP_SIGNATURE
            then (phys_addr, phys_to_virt phys_addr)
            else mp_scan mem (phys_addr + 16) (phys_to_virt phys_addr))
      else (phys_addr, p))"
  by pat_completeness auto
termination
  by (relation "measure (\<lambda>(mem, phys_addr, p). 0x100000 - phys_addr)") auto

text \<open>
  \<open>mp_setup\<close>: the error is the value returned; on success the globals are returned
  as the function leaves them. The size is read with a 32-bit load and stored in the
  16-bit global, which keeps its low 16 bits.
\<close>

definition mp_setup :: "phys_mem \<Rightarrow> mp_globals \<Rightarrow> error + mp_globals" where
  "mp_setup mem g =
     (case mp_scan mem 0xF0000 (mpfp g) of (phys_addr, p) \<Rightarrow>
        if phys_addr = 0x100000 then Inl NotFound
        else
          let phys_addr2 = unat (read_u32 mem (p + MPFP_SIGNATURE_BYTES));
              t = phys_to_virt phys_addr2
          in if read_u32 mem t \<noteq> MPCT_SIGNATURE then Inl InvalidSignature
             else Inr (g\<lparr>mpfp := p, mpct := t,
                        base_mpct_bytes := ucast (read_u32 mem (t + MPCT_SIGNATURE_BYTES))\<rparr>))"

text \<open>
  One turn of the third loop of \<open>mp_show\<close>: the position printed, the type byte read
  at it, the stride chosen, the bytes printed, and the offsets from \<open>mpct\<close> that the
  turn reads, in the order it reads them.
\<close>

record mp_entry =
  pos :: nat
  entry_type :: u8
  entry_bytes :: nat
  raw :: "u8 list"
  reads :: "nat list"

function mp_walk :: "phys_mem \<Rightarrow> nat \<Rightarrow> nat \<Rightarrow> u16 \<Rightarrow> mp_entry list" where
  "mp_walk mem t p n =
     (if p < unat n
      then (let ty = mem (t + p);
                k = (if ty = MPCT_ENTRY_TYPE_PROCESSOR
                     then MPCT_ENTRY_BYTES_PROCESSOR else MPCT_ENTRY_BYTES_DEFAULT)
            in \<lparr>pos = p, entry_type = ty, entry_bytes = k,
                raw = map (\<lambda>byte. mem (t + (p + byte))) [0..<k],
                reads = p # map (\<lambda>byte. p + byte) [0..<k]\<rparr>
               # mp_walk mem t (p + k) n)
      else [])"
  by pat_completeness auto
termination
  by (relation "measure (\<lambda>(mem, t, p, n). unat n - p)")
    (auto simp: MPCT_ENTRY_BYTES_PROCESSOR_def MPCT_ENTRY_BYTES_DEFAULT_def)

text \<open>The dump loops of \<open>mp_show\<close>: a new line with the offset before every fourth byte.\<close>

definition dump_byte :: "phys_mem \<Rightarrow> nat \<Rightarrow> nat \<Rightarrow> string" where
  "dump_byte mem base p =
     (if p mod 4 = 0 then ''\<newline>0x'' @ fmt_X 3 p @ '':'' else [])
     @ '' '' @ fmt_X 2 (unat (mem (base + p)))"

definition show_entry :: "mp_entry \<Rightarrow> string" where
  "show_entry e =
     ''\<newline>0x'' @ fmt_X 3 (pos e) @ '':''
     @ concat (map (\<lambda>b. '' '' @ fmt_X 2 (unat b)) (raw e))"

definition mp_show :: "phys_mem \<Rightarrow> mp_globals \<Rightarrow> string" where
  "mp_show mem g =
     ''\<newline>MP Floating Pointer Structure:\<newline>''
     @ concat (map (dump_byte mem (mpfp g)) [0..<MPFP_STRUCTURE_BYTES]) @ ''\<newline>''
     @ ''\<newline>MP Configuration Table Header:\<newline>''
     @ concat (map (dump_byte mem (mpct g)) [0..<MPCT_HEADER_BYTES]) @ ''\<newline>''
     @ ''\<newline>Base MP Configuration Table:\<newline>''
     @ concat (map show_entry (mp_walk mem (mpct g) MPCT_HEADER_BYTES (base_mpct_bytes g)))
     @ ''\<newline>''"

text \<open>The offsets from \<open>mpct\<close> that \<open>mp_show\<close> reads: the header, then the walk.\<close>

definition mpct_reads :: "phys_mem \<Rightarrow> mp_globals \<Rightarrow> nat list" where
  "mpct_reads mem g =
     [0..<MPCT_HEADER_BYTES]
     @ concat (map reads (mp_walk mem (mpct g) MPCT_HEADER_BYTES (base_mpct_bytes g)))"

text \<open>
  \<open>mp_init\<close>: the proc file exists (and so a report can be opened at all) only when
  \<open>mp_setup\<close> has returned 0.
\<close>

record mp_module =
  globals :: mp_globals
  proc_created :: bool

definition mp_init :: "phys_mem \<Rightarrow> mp_globals \<Rightarrow> error + mp_module" where
  "mp_init mem g =
     (case mp_setup mem g of
        Inl e \<Rightarrow> Inl e
      | Inr g' \<Rightarrow> Inr \<lparr>globals = g', proc_created = True\<rparr>)"

text \<open>
  The words of the specification for the two signature checks: the bytes at an address
  are the characters of the signature, and the candidates of the scan are the addresses
  from \<open>0xF0000\<close> to \<open>0xFFFFF\<close> inclusive in steps of 16.
\<close>

definition has_signature :: "phys_mem \<Rightarrow> nat \<Rightarrow> string \<Rightarrow> bool" where
  "has_signature mem a s = (map (\<lambda>i. mem (a + i)) [0..<length s] = map of_char s)"

definition scan_candidate :: "nat \<Rightarrow> bool" where
  "scan_candidate a = (0xF0000 \<le> a \<and> a \<le> 0xFFFFF \<and> 16 dvd (a - 0xF0000))"

text \<open>The value of a 32-bit load as a number, and a memory that holds a string at 0.\<close>

definition le32 :: "phys_mem \<Rightarrow> nat \<Rightarrow> nat" where
  "le32 m r =
     unat (m r) + 256 * unat (m (r + 1)) + 65536 * unat (m (r + 2))
     + 16777216 * unat (m (r + 3))"

definition sig_mem :: "string \<Rightarrow> phys_mem" where
  "sig_mem s i = (if i < length s then of_char (s ! i) else 0)"

subsection \<open>A sample firmware image\<close>

text \<open>
  The floating pointer structure is at \<open>0xF0020\<close> (a second marker follows at
  \<open>0xF0040\<close>) and points to a configuration table at \<open>0x1000\<close>, whose size field
  holds 72 and is followed by two non-zero bytes. After the 44-byte header come a
  processor entry (type 0) and a bus entry (type 1); one more byte of type 2 lies
  past the declared size.
\<close>

definition demo_mem :: phys_mem where
  "demo_mem a =
     (if 0xF0020 \<le> a \<and> a < 0xF0028
        then [0x5F, 0x4D, 0x50, 0x5F, 0x00, 0x10, 0x00, 0x00] ! (a - 0xF0020)
      else if 0xF0040 \<le> a \<and> a < 0xF0044
        then [0x5F, 0x4D, 0x50, 0x5F] ! (a - 0xF0040)
      else if 0x1000 \<le> a \<and> a < 0x1008
        then [0x50, 0x43, 0x4D, 0x50, 0x48, 0x00, 0x04, 0x99] ! (a - 0x1000)
      else if a = 0x1000 + 64 then 1
      else if a = 0x1000 + 72 then 2
      else 0)"

definition demo_globals :: mp_globals where
  "demo_globals = \<lparr>base_mpct_bytes = 0, mpfp = 0, mpct = 0\<rparr>"

text \<open>The globals as \<open>mp_setup\<close> leaves them on the sample image.\<close>

definition demo_found :: mp_globals where
  "demo_found = \<lparr>base_mpct_bytes = 72, mpfp = 0xF0020, mpct = 0x1000\<rparr>"

section \<open>ioapic: the IO-APIC Redirection Table viewer\<close>

definition IOAPIC_REG_ID :: u8 where
  "IOAPIC_REG_ID = 0x00"

definition IOAPIC_REG_VER :: u8 where
  "IOAPIC_REG_VER = 0x01"

definition IOAPIC_REG_ARB :: u8 where
  "IOAPIC_REG_ARB = 0x02"

definition IOAPIC_REG_ID_SHIFT_ID :: nat where
  "IOAPIC_REG_ID_SHIFT_ID = 24"

definition IOAPIC_REG_ID_MASK_ID :: u32 where
  "IOAPIC_REG_ID_MASK_ID = 0x0F000000"

definition IOAPIC_REG_VER_SHIFT_VER :: nat where
  "IOAPIC_REG_VER_SHIFT_VER = 0"

definition IOAPIC_REG_VER_MASK_VER :: u32 where
  "IOAPIC_REG_VER_MASK_VER = 0x000000FF"

definition IOAPIC_REG_VER_SHIFT_MAX_ENTRIES :: nat where
  "IOAPIC_REG_VER_SHIFT_MAX_ENTRIES = 16"

definition IOAPIC_REG_VER_MASK_MAX_ENTRIES :: u32 where
  "IOAPIC_REG_VER_MASK_MAX_ENTRIES = 0x00FF0000"

text \<open>
  The hardware is outside the program: for the register window at a physical base
  address, \<open>hw base reg\<close> is the value the data register returns while the index
  register holds \<open>reg\<close>.
\<close>

type_synonym ioapic_hw = "u32 \<Rightarrow> u8 \<Rightarrow> u32"

text \<open>The module parameters.\<close>

record ioapic_params =
  ioapic0_base :: u64
  ioapic1_base :: u64

text \<open>
  The module's globals (\<open>id\<close> is \<open>ioapic_id\<close> here), together with what the kernel
  holds for the module: \<open>mapped\<close> lists the windows that \<open>ioremap_nocache\<close> has mapped
  and \<open>iounmap\<close> has not yet released, the latest first, and \<open>accesses\<close> the values
  written to the index register, each followed by a read of the data register. A
  mapping is named by the physical base it maps, and so is the pointer \<open>ioapic_addr\<close>.
\<close>

record ioapic_state =
  mapped :: "u32 list"
  ioapic_addr :: u32
  ioapic_id :: u32
  version :: u32
  max_entries :: u32
  accesses :: "u8 list"

definition ioremap_nocache :: "u32 \<Rightarrow> ioapic_state \<Rightarrow> u32 \<times> ioapic_state" where
  "ioremap_nocache base st = (base, st\<lparr>mapped := base # mapped st\<rparr>)"

definition iounmap :: "u32 \<Rightarrow> ioapic_state \<Rightarrow> ioapic_state" where
  "iounmap addr st = st\<lparr>mapped := remove1 addr (mapped st)\<rparr>"

text \<open>\<open>ioapic_read\<close>: write the index register, then read the data register.\<close>

definition ioapic_read :: "ioapic_hw \<Rightarrow> u32 \<Rightarrow> u8 \<Rightarrow> ioapic_state \<Rightarrow> u32 \<times> ioapic_state" where
  "ioapic_read hw addr reg st = (hw addr reg, st\<lparr>accesses := accesses st @ [reg]\<rparr>)"

text \<open>
  \<open>ioapic_setup\<close> returns 0 (\<open>Inr ()\<close>) or \<open>-ENODEV\<close>, and the state as it leaves it.
  Both error returns come before the three globals are assigned and neither unmaps.
\<close>

definition ioapic_setup :: "ioapic_hw \<Rightarrow> u32 \<Rightarrow> ioapic_state \<Rightarrow> (error + unit) \<times> ioapic_state" where
  "ioapic_setup hw ioapic_base st =
     (case ioremap_nocache ioapic_base st of (addr, st0) \<Rightarrow>
      case ioapic_read hw addr IOAPIC_REG_ID (st0\<lparr>ioapic_addr := addr\<rparr>) of (reg_id, st1) \<Rightarrow>
      case ioapic_read hw (ioapic_addr st1) IOAPIC_REG_VER st1 of (reg_ver, st2) \<Rightarrow>
        if reg_id AND NOT IOAPIC_REG_ID_MASK_ID \<noteq> 0
          then (Inl InvalidRegisterContents, st2)
        else if reg_ver AND NOT IOAPIC_REG_VER_MASK_VER AND NOT IOAPIC_REG_VER_MASK_MAX_ENTRIES \<noteq> 0
          then (Inl InvalidRegisterContents, st2)
        else (Inr (),
              st2\<lparr>ioapic_id := drop_bit IOAPIC_REG_ID_SHIFT_ID (reg_id AND IOAPIC_REG_ID_MASK_ID),
                  version := drop_bit IOAPIC_REG_VER_SHIFT_VER (reg_ver AND IOAPIC_REG_VER_MASK_VER),
                  max_entries := drop_bit IOAPIC_REG_VER_SHIFT_MAX_ENTRIES
                                   (reg_ver AND IOAPIC_REG_VER_MASK_MAX_ENTRIES)\<rparr>))"

text \<open>One turn of the loop of \<open>ioapic_show\<close>: the pin and the two words read for it.\<close>

record rt_entry =
  pin :: nat
  word_lo :: u32
  word_hi :: u32

text \<open>
  The loop of \<open>ioapic_show\<close>. The register number \<open>0x10 + 2 * pin\<close> is computed in
  \<open>int\<close> and passed to the \<open>uint8_t\<close> parameter of \<open>ioapic_read\<close>, which keeps its low
  eight bits. The counter \<open>pin\<close> is an \<open>int\<close> compared with the unsigned bound; the
  model counts in \<open>nat\<close>, which is the same as long as the counter stays below
  \<open>2 ^ 31\<close>, and \<open>max_entries\<close> is never above 255 once \<open>ioapic_setup\<close> has set it.
\<close>

function ioapic_walk :: "ioapic_hw \<Rightarrow> nat \<Rightarrow> ioapic_state \<Rightarrow> rt_entry list \<times> ioapic_state" where
  "ioapic_walk hw n st =
     (if n \<le> unat (max_entries st)
      then (case ioapic_read hw (ioapic_addr st) (of_nat (0x10 + 2 * n)) st of (lo, st1) \<Rightarrow>
            case ioapic_read hw (ioapic_addr st1) (of_nat (0x11 + 2 * n)) st1 of (hi, st2) \<Rightarrow>
            case ioapic_walk hw (n + 1) st2 of (es, st3) \<Rightarrow>
              (\<lparr>pin = n, word_lo = lo, word_hi = hi\<rparr> # es, st3))
      else ([], st))"
  by pat_completeness auto
termination
  by (relation "measure (\<lambda>(hw, n, st). Suc (unat (max_entries st)) - n)")
    (auto simp: ioapic_read_def)

definition show_rt_entry :: "rt_entry \<Rightarrow> string" where
  "show_rt_entry e =
     (if pin e mod 3 = 0 then ''\<newline>'' else ''    '')
     @ fmt_d 3 (int (pin e)) @ '': '' @ fmt_X 8 (unat (word_hi e)) @ fmt_X 8 (unat (word_lo e))"

text \<open>\<open>ioapic_show\<close> returns 0 always; the model returns the text and the state.\<close>

definition ioapic_show :: "ioapic_hw \<Rightarrow> ioapic_state \<Rightarrow> string \<times> ioapic_state" where
  "ioapic_show hw st =
     (case ioapic_walk hw 0 st of (es, st1) \<Rightarrow>
        (''\<newline>IO-APIC    ID '' @ fmt_X 0 (unat (ioapic_id st))
         @ ''    Version: '' @ fmt_X 2 (unat (version st))
         @ ''    Max entries: '' @ fmt_d 0 (sint (max_entries st + 1)) @ ''\<newline>''
         @ concat (map show_rt_entry es) @ ''\<newline>\<newline>'',
         iounmap (ioapic_addr st1) st1))"

text \<open>
  \<open>single_open\<close> and the read routine belong to the kernel. \<open>single_open\<close> installs
  the show routine in the opened file and returns 0; it does not run it. The opened
  file stands here for the routine installed in it. \<open>seq_read\<close> is one run of that
  routine by the read glue; whether a read follows an open, and how many, is up to the
  caller.
\<close>

type_synonym seq_file = "ioapic_state \<Rightarrow> string \<times> ioapic_state"

definition single_open :: "seq_file \<Rightarrow> ioapic_state \<Rightarrow> (error + seq_file) \<times> ioapic_state" where
  "single_open show_fn st = (Inr show_fn, st)"

definition seq_read :: "seq_file \<Rightarrow> ioapic_state \<Rightarrow> string \<times> ioapic_state" where
  "seq_read file st = file st"

text \<open>
  The two open routines call \<open>ioapic_setup\<close> and drop what it returns. The
  \<open>unsigned long\<close> parameter is converted to the \<open>uint32_t\<close> argument.
\<close>

definition ioapic0_open :: "ioapic_hw \<Rightarrow> ioapic_params \<Rightarrow> ioapic_state \<Rightarrow> (error + seq_file) \<times> ioapic_state" where
  "ioapic0_open hw prm st =
     (case ioapic_setup hw (ucast (ioapic0_base prm)) st of (_, st1) \<Rightarrow>
        single_open (ioapic_show hw) st1)"

definition ioapic1_open :: "ioapic_hw \<Rightarrow> ioapic_params \<Rightarrow> ioapic_state \<Rightarrow> (error + seq_file) \<times> ioapic_state" where
  "ioapic1_open hw prm st =
     (case ioapic_setup hw (ucast (ioapic1_base prm)) st of (_, st1) \<Rightarrow>
        single_open (ioapic_show hw) st1)"

text \<open>
  \<open>ioapic_init\<close> checks what \<open>ioapic_setup\<close> returns and creates the proc files only
  when every setup has returned 0: the result lists the files created.
\<close>

definition ioapic_init :: "ioapic_hw \<Rightarrow> ioapic_params \<Rightarrow> ioapic_state \<Rightarrow> (error + string list) \<times> ioapic_state" where
  "ioapic_init hw prm st =
     (case ioapic_setup hw (ucast (ioapic0_base prm)) st of
        (Inl e, st1) \<Rightarrow> (Inl e, st1)
      | (Inr _, st1) \<Rightarrow>
          if ioapic1_base prm \<noteq> 0
          then (case ioapic_setup hw (ucast (ioapic1_base prm)) st1 of
                  (Inl e, st2) \<Rightarrow> (Inl e, st2)
                | (Inr _, st2) \<Rightarrow> (Inr [''ioapic0'', ''ioapic1''], st2))
          else (Inr [''ioapic0''], st1))"

subsection \<open>Sample controllers\<close>

text \<open>
  At \<open>0xFEC00000\<close> a controller with identification 2, version \<open>0x11\<close> and 24
  redirection entries; at \<open>0xFEC01000\<close> one that declares 121 entries; anywhere
  else every read returns all ones. Entry registers return their own number.
\<close>

definition demo_hw :: ioapic_hw where
  "demo_hw base reg =
     (if base = 0xFEC00000
      then (if reg = 0 then 0x02000000 else if reg = 1 then 0x00170011 else ucast reg)
      else if base = 0xFEC01000
      then (if reg = 0 then 0x02000000 else if reg = 1 then 0x00780011 else ucast reg)
      else 0xFFFFFFFF)"

definition demo_params :: ioapic_params where
  "demo_params = \<lparr>ioapic0_base = 0xFEC00000, ioapic1_base = 0\<rparr>"

definition demo_unloaded :: ioapic_state where
  "demo_unloaded =
     \<lparr>mapped = [], ioapic_addr = 0, ioapic_id = 0, version = 0, max_entries = 0,
      accesses = []\<rparr>"

text \<open>The state after the module has been loaded with the default parameters.\<close>

definition demo_loaded :: ioapic_state where
  "demo_loaded = snd (ioapic_init demo_hw demo_params demo_unloaded)"

text \<open>
  The parameter \<open>ioapic0_base\<close> is writable after loading; here it has been moved to an
  address where there is no controller.
\<close>

definition moved_params :: ioapic_params where
  "moved_params = demo_params\<lparr>ioapic0_base := 0xDEAD0000\<rparr>"


section \<open>idt: the Interrupt Descriptor Table viewer\<close>

text \<open>\<open>CONFIG_X86_64\<close> defined (\<open>Wide\<close>) or not (\<open>Narrow\<close>).\<close>

datatype layout = Wide | Narrow

definition IDT_ENTRY_BYTES :: "layout \<Rightarrow> int" where
  "IDT_ENTRY_BYTES lay = (case lay of Wide \<Rightarrow> 16 | Narrow \<Rightarrow> 8)"

text \<open>
  \<open>struct desc_ptr\<close>, declared by the kernel: an \<open>unsigned short size\<close> and an
  \<open>unsigned long address\<close> (the fields are \<open>dtr_size\<close> and \<open>dtr_address\<close> here).
\<close>

record desc_ptr =
  dtr_size :: u16
  dtr_address :: u64

record idt_globals =
  dtr :: desc_ptr
  num_idt_entries :: int
  idt :: u64

text \<open>
  \<open>gate_desc\<close> is declared by the kernel, not by the repository. The record has the
  fields that \<open>idt_show\<close> reads, under either layout, each with the width the format
  prints it with: the two raw 64-bit words, the three parts of the offset,
  \<open>segment\<close> and \<open>ist\<close> under the wide layout; the words \<open>a\<close> and \<open>b\<close> (\<open>word_a\<close>,
  \<open>word_b\<close>), \<open>limit0\<close> and \<open>base0\<close> under the narrow one; \<open>type\<close>, \<open>dpl\<close> and \<open>p\<close>
  (\<open>gate_type\<close>, \<open>dpl\<close>, \<open>p_bit\<close>) under both.
\<close>

record gate_desc =
  raw_lo :: u64
  raw_hi :: u64
  offset_low :: u16
  offset_middle :: u16
  offset_high :: u32
  segment :: u16
  ist :: u32
  word_a :: u32
  word_b :: u32
  limit0 :: u16
  base0 :: u16
  gate_type :: u32
  dpl :: u32
  p_bit :: u32

text \<open>The gate type codes are kernel constants too; they are a parameter.\<close>

record gate_codes =
  GATE_INTERRUPT :: u32
  GATE_TRAP :: u32
  GATE_TASK :: u32

text \<open>
  \<open>idt_setup\<close>: \<open>store_idt\<close> puts the contents of the IDTR, given here as \<open>idtr\<close>, into
  \<open>dtr\<close>. In \<open>dtr.size + 1\<close> the \<open>unsigned short\<close> is promoted to \<open>int\<close>, so the sum
  does not wrap. The function prints the summary line.
\<close>

definition idt_setup :: "layout \<Rightarrow> desc_ptr \<Rightarrow> idt_globals \<Rightarrow> string \<times> idt_globals" where
  "idt_setup lay idtr g =
     (let n = (uint (dtr_size idtr) + 1) div IDT_ENTRY_BYTES lay
      in (''\<newline>IDT    Size: '' @ fmt_d 0 (uint (dtr_size idtr) + 1)
          @ '' bytes / '' @ fmt_d 0 n
          @ '' entries    Virt address: 0x'' @ fmt_X 0 (unat (dtr_address idtr)) @ ''\<newline>'',
          g\<lparr>dtr := idtr, num_idt_entries := n, idt := dtr_address idtr\<rparr>))"

definition idt_print_type :: "gate_codes \<Rightarrow> u32 \<Rightarrow> string" where
  "idt_print_type c ty =
     (if ty = GATE_INTERRUPT c then ''interrupt''
      else if ty = GATE_TRAP c then ''trap     ''
      else if ty = GATE_TASK c then ''task     ''
      else ''other    '')"

text \<open>The last conversions of an entry's line: the handler offset.\<close>

definition show_offset :: "layout \<Rightarrow> gate_desc \<Rightarrow> string" where
  "show_offset lay d =
     (case lay of
        Wide \<Rightarrow> fmt_X 8 (unat (offset_high d)) @ fmt_X 4 (unat (offset_middle d))
                @ fmt_X 4 (unat (offset_low d))
      | Narrow \<Rightarrow> fmt_X 8 (unat ((word_b d AND 0xFFFF0000) + ucast (limit0 d))))"

text \<open>The line that \<open>idt_show\<close> prints for entry number \<open>entry\<close>.\<close>

definition show_gate :: "layout \<Rightarrow> gate_codes \<Rightarrow> nat \<Rightarrow> gate_desc \<Rightarrow> string" where
  "show_gate lay c entry d =
     ''\<newline>0x'' @ fmt_X 2 entry @ '':''
     @ (case lay of
          Wide \<Rightarrow>
            '' '' @ fmt_X 16 (unat (raw_hi d)) @ fmt_X 16 (unat (raw_lo d))
            @ '' '' @ idt_print_type c (gate_type d)
            @ '' '' @ fmt_X 0 (unat (dpl d))
            @ ''   '' @ [if p_bit d \<noteq> 0 then CHR ''+'' else CHR ''-'']
            @ '' '' @ fmt_X 0 (unat (ist d))
            @ ''   '' @ fmt_X 4 (unat (segment d))
            @ '' '' @ show_offset lay d
        | Narrow \<Rightarrow>
            '' '' @ fmt_X 8 (unat (word_b d)) @ fmt_X 8 (unat (word_a d))
            @ '' '' @ idt_print_type c (gate_type d)
            @ '' '' @ fmt_X 0 (unat (dpl d))
            @ ''   '' @ [if p_bit d \<noteq> 0 then CHR ''+'' else CHR ''-'']
            @ '' '' @ fmt_X 4 (unat (base0 d))
            @ '' '' @ show_offset lay d)"

text \<open>
  \<open>idt_show\<close>: \<open>table entry\<close> is \<open>idt[entry]\<close>. The loop runs over the entry numbers
  from 0 below \<open>num_idt_entries\<close>.
\<close>

definition idt_show ::
  "layout \<Rightarrow> gate_codes \<Rightarrow> desc_ptr \<Rightarrow> (nat \<Rightarrow> gate_desc) \<Rightarrow> idt_globals \<Rightarrow> string \<times> idt_globals" where
  "idt_show lay c idtr table g =
     (case idt_setup lay idtr g of (summary, g') \<Rightarrow>
        (summary
         @ (case lay of
              Wide \<Rightarrow> ''\<newline>      HEX                              TYPE      DPL P IST SEGM OFFSET''
            | Narrow \<Rightarrow> ''\<newline>      HEX              TYPE      DPL P SEGM OFFSET'')
         @ concat (map (\<lambda>entry. show_gate lay c entry (table entry))
                     [0..<nat (num_idt_entries g')])
         @ ''\<newline>\<newline>'',
         g'))"

text \<open>
  The words of the specification for the handler offset: its split fields put one
  after the other, the most significant first. Under the narrow layout the halves are
  the upper 16 bits of \<open>b\<close> and \<open>limit0\<close>.
\<close>

definition joined_offset :: "layout \<Rightarrow> gate_desc \<Rightarrow> nat" where
  "joined_offset lay d =
     (case lay of
        Wide \<Rightarrow> unat (offset_high d) * 2 ^ 32 + unat (offset_middle d) * 2 ^ 16
                + unat (offset_low d)
      | Narrow \<Rightarrow> unat (drop_bit 16 (word_b d)) * 2 ^ 16 + unat (limit0 d))"

text \<open>A fixed number of digits in base \<open>b\<close>, the most significant first.\<close>

fun fixed_digits :: "nat \<Rightarrow> nat \<Rightarrow> nat \<Rightarrow> string" where
  "fixed_digits b 0 n = []"
| "fixed_digits b (Suc w) n = fixed_digits b w (n div b) @ [digit_char (n mod b)]"

subsection \<open>A sample gate and a sample IDTR\<close>

text \<open>
  An interrupt gate whose handler is at \<open>0xFFFFFFFF81000ABC\<close> under the wide layout;
  read under the narrow layout, its words give the offset \<open>0xC0DE0ABC\<close>.
\<close>

definition demo_gate :: gate_desc where
  "demo_gate =
     \<lparr>raw_lo = 0x81008E0000100ABC, raw_hi = 0x00000000FFFFFFFF,
      offset_low = 0x0ABC, offset_middle = 0x8100, offset_high = 0xFFFFFFFF,
      segment = 0x0010, ist = 0,
      word_a = 0x00100ABC, word_b = 0xC0DE8E00, limit0 = 0x0ABC, base0 = 0x0010,
      gate_type = 0xE, dpl = 0, p_bit = 1\<rparr>"

definition demo_idtr :: desc_ptr where
  "demo_idtr = \<lparr>dtr_size = 0xFFF, dtr_address = 0xFFFFFFFFFF57A000\<rparr>"

definition demo_idt_globals :: idt_globals where
  "demo_idt_globals =
     \<lparr>dtr = \<lparr>dtr_size = 0, dtr_address = 0\<rparr>, num_idt_entries = 0, idt = 0\<rparr>"

text \<open>Sample values for the gate type codes.\<close>

definition demo_codes :: gate_codes where
  "demo_codes = \<lparr>GATE_INTERRUPT = 0xE, GATE_TRAP = 0xF, GATE_TASK = 0x5\<rparr>"

section \<open>Properties of the mp viewer\<close>


declare mp_scan.simps [simp del]
declare mp_walk.simps [simp del]
declare num_str.simps [simp del]

lemma replicate_num: "replicate (numeral k) x = x # replicate (pred_numeral k) x"
  by (simp add: numeral_eq_Suc)

lemmas fmt_eval = fmt_d_def fmt_X_def num_str.simps digit_char_def replicate_num

lemma split256:
  fixes a r :: nat
  assumes "a < 256" "a' < 256" "a + 256 * r = a' + 256 * r'"
  shows "a = a' \<and> r = r'"
proof -
  have "(a + 256 * r) mod 256 = a" "(a + 256 * r) div 256 = r"
    "(a' + 256 * r') mod 256 = a'" "(a' + 256 * r') div 256 = r'"
    using assms(1,2) by simp_all
  with assms(3) show ?thesis by metis
qed

lemma u8_lt: "unat (x :: u8) < 256"
  using unsigned_less [of x] by simp

lemma low16:
  fixes x y :: nat
  shows "(x + 65536 * y) mod 4294967296 mod 65536 = x mod 65536"
proof -
  have "(x + 65536 * y) mod 4294967296 mod 65536 = (x + 65536 * y) mod 65536"
    by (rule mod_mod_cancel) simp
  then show ?thesis by simp
qed

lemma ucast_read_u32: "(ucast (read_u32 mem p) :: u16) = read_u16 mem p"
proof -
  define lo where "lo = unat (mem p) + 2 ^ 8 * unat (mem (p + 1))"
  define hi where "hi = unat (mem (p + 2)) + 2 ^ 8 * unat (mem (p + 3))"
  have "read_u32 mem p = word_of_nat (lo + 65536 * hi)"
    by (simp add: read_u32_def lo_def hi_def)
  then have "(ucast (read_u32 mem p) :: u16) = word_of_nat (take_bit 32 (lo + 65536 * hi))"
    by (simp only: unsigned_of_nat) simp
  also have "\<dots> = word_of_nat lo"
    unfolding word_of_nat_eq_iff
    by (simp add: take_bit_eq_mod low16)
  finally show ?thesis by (simp add: read_u16_def lo_def)
qed

lemma le_bytes: 
  fixes a b c d :: nat
  assumes "a < 256" "b < 256" "c < 256" "d < 256" 
  shows "a + 256 * b + 65536 * c + 16777216 * d < 4294967296"
  using assms by linarith

lemma le32_lt: "le32 m r < 4294967296"
  unfolding le32_def by (rule le_bytes) (rule u8_lt)+

lemma read_u32_le32: "read_u32 mem p = word_of_nat (le32 mem p)"
  by (simp add: read_u32_def le32_def)

lemma unat_read_u32: "unat (read_u32 mem p) = le32 mem p"
  using le32_lt [of mem p] by (simp add: read_u32_le32 unat_of_nat)

lemma le32_inj:
  assumes e: "le32 mem p = le32 mem' q"
  shows "mem p = mem' q \<and> mem (p + 1) = mem' (q + 1) \<and> mem (p + 2) = mem' (q + 2) \<and> mem (p + 3) = mem' (q + 3)"
proof -
  have "unat (mem p) + 256 * (unat (mem (p + 1)) + 256 * (unat (mem (p + 2)) + 256 * unat (mem (p + 3))))
    = unat (mem' q) + 256 * (unat (mem' (q + 1)) + 256 * (unat (mem' (q + 2)) + 256 * unat (mem' (q + 3))))"
    using e by (simp add: le32_def)
  from split256 [OF u8_lt u8_lt this]
  have 0: "unat (mem p) = unat (mem' q)" and r1: "unat (mem (p + 1)) + 256 * (unat (mem (p + 2)) + 256 * unat (mem (p + 3)))
    = unat (mem' (q + 1)) + 256 * (unat (mem' (q + 2)) + 256 * unat (mem' (q + 3)))"
    by simp_all
  from split256 [OF u8_lt u8_lt r1]
  have 1: "unat (mem (p + 1)) = unat (mem' (q + 1))" and r2: "unat (mem (p + 2)) + 256 * unat (mem (p + 3))
    = unat (mem' (q + 2)) + 256 * unat (mem' (q + 3))"
    by simp_all
  from split256 [OF u8_lt u8_lt r2]
  have 2: "unat (mem (p + 2)) = unat (mem' (q + 2))" and 3: "unat (mem (p + 3)) = unat (mem' (q + 3))"
    by simp_all
  from 0 1 2 3 show ?thesis by (simp only: word_unat_eq_iff)
qed

lemma read_u32_inj:
  "read_u32 mem p = read_u32 mem' q \<longleftrightarrow>
     mem p = mem' q \<and> mem (p + 1) = mem' (q + 1) \<and> mem (p + 2) = mem' (q + 2) \<and> mem (p + 3) = mem' (q + 3)"
  (is "?L \<longleftrightarrow> ?R")
proof
  assume ?R then show ?L by (simp add: read_u32_def)
next
  assume ?L
  then have "unat (read_u32 mem p) = unat (read_u32 mem' q)" by simp
  then show ?R unfolding unat_read_u32 by (rule le32_inj)
qed

lemma MPFP_SIGNATURE_bytes: "read_u32 (sig_mem ''_MP_'') 0 = MPFP_SIGNATURE"
  by (simp add: read_u32_def sig_mem_def MPFP_SIGNATURE_def)

lemma MPCT_SIGNATURE_bytes: "read_u32 (sig_mem ''PCMP'') 0 = MPCT_SIGNATURE"
  by (simp add: read_u32_def sig_mem_def MPCT_SIGNATURE_def)

lemma upt4: "[0..<4] = [0, 1, 2, 3]"
  by (simp add: upt_rec)

lemma MPFP_SIGNATURE_iff: "read_u32 mem p = MPFP_SIGNATURE \<longleftrightarrow> has_signature mem p ''_MP_''"
  unfolding MPFP_SIGNATURE_bytes [symmetric] read_u32_inj
  by (simp add: sig_mem_def has_signature_def upt4 numeral_3_eq_3)

lemma MPCT_SIGNATURE_iff: "read_u32 mem p = MPCT_SIGNATURE \<longleftrightarrow> has_signature mem p ''PCMP''"
  unfolding MPCT_SIGNATURE_bytes [symmetric] read_u32_inj
  by (simp add: sig_mem_def has_signature_def upt4 numeral_3_eq_3)

lemma mp_scan_none:
  assumes "k \<le> 4096"
    and "\<forall>j. k \<le> j \<and> j < 4096 \<longrightarrow> read_u32 mem (0xF0000 + 16 * j) \<noteq> MPFP_SIGNATURE"
  shows "fst (mp_scan mem (0xF0000 + 16 * k) p) = 0x100000"
  using assms
proof (induction "4096 - k" arbitrary: k p)
  case 0
  then have "k = 4096" by simp
  then show ?case by (subst mp_scan.simps) simp
next
  case (Suc n)
  then have k: "k < 4096" by simp
  with Suc.prems have nm: "read_u32 mem (0xF0000 + 16 * k) \<noteq> MPFP_SIGNATURE" by simp
  have "fst (mp_scan mem (0xF0000 + 16 * Suc k) (0xF0000 + 16 * k)) = 0x100000"
    using Suc.hyps Suc.prems k by (intro Suc.hyps(1)) auto
  then show ?case
    using k nm by (subst mp_scan.simps) (simp add: phys_to_virt_def)
qed

lemma mp_scan_first:
  assumes "k \<le> j" "j < 4096"
    and "read_u32 mem (0xF0000 + 16 * j) = MPFP_SIGNATURE"
    and "\<forall>i. k \<le> i \<and> i < j \<longrightarrow> read_u32 mem (0xF0000 + 16 * i) \<noteq> MPFP_SIGNATURE"
  shows "mp_scan mem (0xF0000 + 16 * k) p = (0xF0000 + 16 * j, 0xF0000 + 16 * j)"
  using assms
proof (induction "j - k" arbitrary: k p)
  case 0
  then have "k = j" by simp
  with 0 show ?case by (subst mp_scan.simps) (simp add: phys_to_virt_def)
next
  case (Suc n)
  then have k: "k < j" by simp
  with Suc.prems have nm: "read_u32 mem (0xF0000 + 16 * k) \<noteq> MPFP_SIGNATURE" by simp
  have "mp_scan mem (0xF0000 + 16 * Suc k) (0xF0000 + 16 * k) = (0xF0000 + 16 * j, 0xF0000 + 16 * j)"
    using Suc.hyps Suc.prems k by (intro Suc.hyps(1)) auto
  then show ?case
    using k nm Suc.prems(2) by (subst mp_scan.simps) (simp add: phys_to_virt_def)
qed

lemma scan_candidate_iff: "scan_candidate a \<longleftrightarrow> (\<exists>j<4096. a = 0xF0000 + 16 * j)"
proof
  assume "scan_candidate a"
  then have a: "0xF0000 \<le> a" "a \<le> 0xFFFFF" "16 dvd (a - 0xF0000)"
    by (simp_all add: scan_candidate_def)
  from a(3) obtain j where j: "a - 0xF0000 = 16 * j" by (elim dvdE)
  with a(1,2) have "j < 4096" "a = 0xF0000 + 16 * j" by linarith+
  then show "\<exists>j<4096. a = 0xF0000 + 16 * j" by blast
next
  assume "\<exists>j<4096. a = 0xF0000 + 16 * j"
  then show "scan_candidate a" by (auto simp: scan_candidate_def)
qed

lemma mp_walk_Nil_iff: "mp_walk mem t p n = [] \<longleftrightarrow> unat n \<le> p"
  by (subst mp_walk.simps) (simp add: Let_def)

lemma mp_walk_hd: "p < unat n \<Longrightarrow> pos (hd (mp_walk mem t p n)) = p"
  by (subst mp_walk.simps) (simp add: Let_def)

lemma mp_walk_entries:
  "e \<in> set (mp_walk mem t p n) \<Longrightarrow>
     p \<le> pos e \<and> pos e < unat n \<and> entry_type e = mem (t + pos e)
     \<and> entry_bytes e = (if entry_type e = 0 then 20 else 8)
     \<and> raw e = map (\<lambda>i. mem (t + (pos e + i))) [0..<entry_bytes e]
     \<and> reads e = pos e # map (\<lambda>i. pos e + i) [0..<entry_bytes e]"
proof (induction mem t p n rule: mp_walk.induct)
  case (1 mem t p n)
  show ?case
  proof (cases "p < unat n")
    case False
    with "1.prems" show ?thesis by (subst (asm) mp_walk.simps) simp
  next
    case True
    define k where "k = (if mem (t + p) = MPCT_ENTRY_TYPE_PROCESSOR
                     then MPCT_ENTRY_BYTES_PROCESSOR else MPCT_ENTRY_BYTES_DEFAULT)"
    from "1.prems" True
    consider "e = \<lparr>pos = p, entry_type = mem (t + p), entry_bytes = k,
                raw = map (\<lambda>byte. mem (t + (p + byte))) [0..<k],
                reads = p # map (\<lambda>byte. p + byte) [0..<k]\<rparr>"
      | "e \<in> set (mp_walk mem t (p + k) n)"
      by (subst (asm) mp_walk.simps) (auto simp: Let_def k_def)
    then show ?thesis
    proof cases
      case 1
      with True show ?thesis
        by (simp add: k_def MPCT_ENTRY_TYPE_PROCESSOR_def MPCT_ENTRY_BYTES_PROCESSOR_def
            MPCT_ENTRY_BYTES_DEFAULT_def)
    next
      case 2
      then have "p + k \<le> pos e \<and> pos e < unat n \<and> entry_type e = mem (t + pos e)
     \<and> entry_bytes e = (if entry_type e = 0 then 20 else 8)
     \<and> raw e = map (\<lambda>i. mem (t + (pos e + i))) [0..<entry_bytes e]
     \<and> reads e = pos e # map (\<lambda>i. pos e + i) [0..<entry_bytes e]"
        using True "1.IH" [OF True refl, of k] by (simp add: k_def)
      then show ?thesis by simp
    qed
  qed
qed

lemma mp_walk_next:
  "Suc i < length (mp_walk mem t p n) \<Longrightarrow>
     pos (mp_walk mem t p n ! Suc i)
       = pos (mp_walk mem t p n ! i) + entry_bytes (mp_walk mem t p n ! i)"
proof (induction i arbitrary: p)
  case 0
  then have lt: "p < unat n" using mp_walk_Nil_iff [of mem t p n] by (cases "p < unat n") auto
  define k where "k = (if mem (t + p) = MPCT_ENTRY_TYPE_PROCESSOR
                     then MPCT_ENTRY_BYTES_PROCESSOR else MPCT_ENTRY_BYTES_DEFAULT)"
  have eq: "mp_walk mem t p n = \<lparr>pos = p, entry_type = mem (t + p), entry_bytes = k,
                raw = map (\<lambda>byte. mem (t + (p + byte))) [0..<k],
                reads = p # map (\<lambda>byte. p + byte) [0..<k]\<rparr> # mp_walk mem t (p + k) n"
    using lt by (subst mp_walk.simps) (simp add: Let_def k_def)
  with 0 have "mp_walk mem t (p + k) n \<noteq> []" by auto
  then have "p + k < unat n" by (simp add: mp_walk_Nil_iff)
  then have "pos (hd (mp_walk mem t (p + k) n)) = p + k" by (rule mp_walk_hd)
  with \<open>mp_walk mem t (p + k) n \<noteq> []\<close> show ?case
    by (simp add: eq hd_conv_nth)
next
  case (Suc i)
  then have lt: "p < unat n" using mp_walk_Nil_iff [of mem t p n] by (cases "p < unat n") auto
  define k where "k = (if mem (t + p) = MPCT_ENTRY_TYPE_PROCESSOR
                     then MPCT_ENTRY_BYTES_PROCESSOR else MPCT_ENTRY_BYTES_DEFAULT)"
  have eq: "mp_walk mem t p n = \<lparr>pos = p, entry_type = mem (t + p), entry_bytes = k,
                raw = map (\<lambda>byte. mem (t + (p + byte))) [0..<k],
                reads = p # map (\<lambda>byte. p + byte) [0..<k]\<rparr> # mp_walk mem t (p + k) n"
    using lt by (subst mp_walk.simps) (simp add: Let_def k_def)
  from Suc.prems have "Suc i < length (mp_walk mem t (p + k) n)" by (simp add: eq)
  from Suc.IH [OF this] show ?case by (simp add: eq)
qed

lemma mp_walk_last:
  "mp_walk mem t p n \<noteq> [] \<Longrightarrow>
     unat n \<le> pos (last (mp_walk mem t p n)) + entry_bytes (last (mp_walk mem t p n))"
proof (induction mem t p n rule: mp_walk.induct)
  case (1 mem t p n)
  then have lt: "p < unat n" by (simp add: mp_walk_Nil_iff)
  define k where "k = (if mem (t + p) = MPCT_ENTRY_TYPE_PROCESSOR
                     then MPCT_ENTRY_BYTES_PROCESSOR else MPCT_ENTRY_BYTES_DEFAULT)"
  have eq: "mp_walk mem t p n = \<lparr>pos = p, entry_type = mem (t + p), entry_bytes = k,
                raw = map (\<lambda>byte. mem (t + (p + byte))) [0..<k],
                reads = p # map (\<lambda>byte. p + byte) [0..<k]\<rparr> # mp_walk mem t (p + k) n"
    using lt by (subst mp_walk.simps) (simp add: Let_def k_def)
  show ?case
  proof (cases "mp_walk mem t (p + k) n = []")
    case True
    then have "unat n \<le> p + k" by (simp add: mp_walk_Nil_iff)
    with True show ?thesis by (simp add: eq)
  next
    case False
    with "1.IH" [OF lt refl, of k] show ?thesis by (simp add: eq k_def)
  qed
qed


lemma mp_scan_cases:
  assumes "mp_scan mem 0xF0000 p = (a, q)"
  shows "(a = 0x100000 \<and> (\<forall>j<4096. read_u32 mem (0xF0000 + 16 * j) \<noteq> MPFP_SIGNATURE))
       \<or> (q = a \<and> (\<exists>j<4096. a = 0xF0000 + 16 * j \<and> read_u32 mem a = MPFP_SIGNATURE
              \<and> (\<forall>i<j. read_u32 mem (0xF0000 + 16 * i) \<noteq> MPFP_SIGNATURE)))"
proof (cases "\<exists>j. j < 4096 \<and> read_u32 mem (0xF0000 + 16 * j) = MPFP_SIGNATURE")
  case True
  then obtain j where j: "j < 4096" "read_u32 mem (0xF0000 + 16 * j) = MPFP_SIGNATURE"
    and least: "\<forall>i<j. \<not> (i < 4096 \<and> read_u32 mem (0xF0000 + 16 * i) = MPFP_SIGNATURE)"
    unfolding exists_least_iff [of "\<lambda>j. j < 4096 \<and> read_u32 mem (0xF0000 + 16 * j) = MPFP_SIGNATURE"]
    by blast
  from least j(1) have "\<forall>i. 0 \<le> i \<and> i < j \<longrightarrow> read_u32 mem (0xF0000 + 16 * i) \<noteq> MPFP_SIGNATURE"
    by auto
  from mp_scan_first [OF _ j(1) j(2) this, of p]
  have "mp_scan mem 0xF0000 p = (0xF0000 + 16 * j, 0xF0000 + 16 * j)" by simp
  with assms have "a = 0xF0000 + 16 * j" "q = a" by simp_all
  with j least show ?thesis by auto
next
  case False
  then have "\<forall>j. 0 \<le> j \<and> j < 4096 \<longrightarrow> read_u32 mem (0xF0000 + 16 * j) \<noteq> MPFP_SIGNATURE"
    by blast
  from mp_scan_none [OF _ this, of p] assms have "a = 0x100000" by simp
  with False show ?thesis by blast
qed

text \<open>
  Claim C5. The scan of \<open>mp_setup\<close> looks at the addresses from \<open>0xF0000\<close> to
  \<open>0xFFFFF\<close> inclusive in steps of 16 and compares the four bytes at each with
  \<open>_MP_\<close>. It fails with \<open>NotFound\<close> exactly when no candidate matches, and otherwise
  it stops at the first candidate that matches: the loop is left with \<open>phys_addr\<close>
  and \<open>mpfp\<close> at that address, not at an earlier or later one.
\<close>

theorem mp_setup_signature_scan:
  "(mp_setup mem g = Inl NotFound
      \<longleftrightarrow> (\<forall>a. scan_candidate a \<longrightarrow> \<not> has_signature mem a ''_MP_''))
   \<and> (\<forall>a. scan_candidate a \<and> has_signature mem a ''_MP_''
          \<and> (\<forall>b. scan_candidate b \<and> b < a \<longrightarrow> \<not> has_signature mem b ''_MP_'')
        \<longrightarrow> mp_scan mem 0xF0000 (mpfp g) = (a, a)
            \<and> (\<forall>g'. mp_setup mem g = Inr g' \<longrightarrow> mpfp g' = a))"
proof (intro conjI allI impI)
  obtain a q where s: "mp_scan mem 0xF0000 (mpfp g) = (a, q)" by (cases "mp_scan mem 0xF0000 (mpfp g)")
  have nf: "mp_setup mem g = Inl NotFound \<longleftrightarrow> a = 0x100000"
    by (simp add: mp_setup_def s Let_def)
  show "mp_setup mem g = Inl NotFound
      \<longleftrightarrow> (\<forall>a. scan_candidate a \<longrightarrow> \<not> has_signature mem a ''_MP_'')"
    using mp_scan_cases [OF s]
    unfolding nf scan_candidate_iff MPFP_SIGNATURE_iff by auto
next
  fix a
  assume h: "scan_candidate a \<and> has_signature mem a ''_MP_''
          \<and> (\<forall>b. scan_candidate b \<and> b < a \<longrightarrow> \<not> has_signature mem b ''_MP_'')"
  then obtain j where j: "j < 4096" "a = 0xF0000 + 16 * j"
    by (auto simp: scan_candidate_iff)
  have "\<forall>i. 0 \<le> i \<and> i < j \<longrightarrow> read_u32 mem (0xF0000 + 16 * i) \<noteq> MPFP_SIGNATURE"
  proof (intro allI impI)
    fix i assume i: "0 \<le> i \<and> i < j"
    with j have "scan_candidate (0xF0000 + 16 * i)" "0xF0000 + 16 * i < a"
      by (auto simp: scan_candidate_iff)
    with h show "read_u32 mem (0xF0000 + 16 * i) \<noteq> MPFP_SIGNATURE"
      by (simp add: MPFP_SIGNATURE_iff)
  qed
  from mp_scan_first [OF _ j(1) _ this, of "mpfp g"] h j
  show s: "mp_scan mem 0xF0000 (mpfp g) = (a, a)"
    by (simp add: MPFP_SIGNATURE_iff)
  fix g'
  assume "mp_setup mem g = Inr g'"
  then show "mpfp g' = a"
    by (auto simp: mp_setup_def s Let_def split: if_splits)
qed

lemma demo_no_signature:
  assumes "scan_candidate b" "b < 0xF0020"
  shows "\<not> has_signature demo_mem b ''_MP_''"
proof -
  from assms obtain j where "j < 2" "b = 0xF0000 + 16 * j"
    by (auto simp: scan_candidate_iff)
  then have "b = 0xF0000 \<or> b = 0xF0010" by (cases j) auto
  then show ?thesis
    by (auto simp: has_signature_def demo_mem_def upt4)
qed

text \<open>
  In the sample image the marker is at the third candidate and again at the fifth;
  the scan returns the third.
\<close>

theorem mp_setup_signature_scan_witness:
  "scan_candidate 0xF0020 \<and> has_signature demo_mem 0xF0020 ''_MP_''
   \<and> scan_candidate 0xF0040 \<and> has_signature demo_mem 0xF0040 ''_MP_''
   \<and> mp_scan demo_mem 0xF0000 (mpfp demo_globals) = (0xF0020, 0xF0020)
   \<and> mp_setup demo_mem demo_globals \<noteq> Inl NotFound"
proof -
  have c: "scan_candidate 0xF0020" "scan_candidate 0xF0040"
    by (simp_all add: scan_candidate_def)
  have h: "has_signature demo_mem 0xF0020 ''_MP_''" "has_signature demo_mem 0xF0040 ''_MP_''"
    by (simp_all add: has_signature_def demo_mem_def upt4)
  have f: "\<forall>b. scan_candidate b \<and> b < 0xF0020 \<longrightarrow> \<not> has_signature demo_mem b ''_MP_''"
    using demo_no_signature by blast
  from mp_setup_signature_scan [of demo_mem demo_globals] c h f
  show ?thesis by blast
qed


lemma demo_scan: "mp_scan demo_mem 0xF0000 p = (0xF0020, 0xF0020)"
proof -
  have "read_u32 demo_mem (0xF0000 + 16 * 2) = MPFP_SIGNATURE"
    by (simp add: MPFP_SIGNATURE_iff has_signature_def demo_mem_def upt4)
  moreover have "\<forall>i. 0 \<le> i \<and> i < 2 \<longrightarrow> read_u32 demo_mem (0xF0000 + 16 * i) \<noteq> MPFP_SIGNATURE"
  proof (intro allI impI)
    fix i :: nat assume "0 \<le> i \<and> i < 2"
    then have "scan_candidate (0xF0000 + 16 * i)" "0xF0000 + 16 * i < 0xF0020"
      by (auto simp: scan_candidate_iff)
    then show "read_u32 demo_mem (0xF0000 + 16 * i) \<noteq> MPFP_SIGNATURE"
      unfolding MPFP_SIGNATURE_iff by (rule demo_no_signature)
  qed
  ultimately have "mp_scan demo_mem (0xF0000 + 16 * 0) p = (0xF0000 + 16 * 2, 0xF0000 + 16 * 2)"
    by (intro mp_scan_first) simp_all
  then show ?thesis by simp
qed

lemma demo_pointer: "unat (read_u32 demo_mem (0xF0020 + 4)) = 0x1000"
  by (simp add: unat_read_u32 le32_def demo_mem_def)

lemma demo_PCMP: "has_signature demo_mem 0x1000 ''PCMP''"
  by (simp add: has_signature_def demo_mem_def upt4)

lemma demo_size: "read_u16 demo_mem (0x1000 + 4) = 72"
  by (simp add: read_u16_def demo_mem_def)

text \<open>
  Claim C6. When the scan has matched at \<open>a\<close>, \<open>mp_setup\<close> takes the address of the
  configuration table from the four bytes at offset 4 of the matched structure, fails
  with \<open>InvalidSignature\<close> exactly when the first four bytes of that table are not
  \<open>PCMP\<close>, and otherwise stores as the base table size the two-byte field at offset 4
  of the table (the code loads four bytes there and keeps the low 16 bits).
\<close>

theorem mp_setup_config_table:
  assumes "mp_scan mem 0xF0000 (mpfp g) = (a, p)" and "a \<noteq> 0x100000"
  shows "p = a \<and> has_signature mem a ''_MP_''
     \<and> (mp_setup mem g = Inl InvalidSignature
          \<longleftrightarrow> \<not> has_signature mem (unat (read_u32 mem (a + 4))) ''PCMP'')
     \<and> (has_signature mem (unat (read_u32 mem (a + 4))) ''PCMP''
          \<longrightarrow> mp_setup mem g
              = Inr (g\<lparr>mpfp := a, mpct := unat (read_u32 mem (a + 4)),
                       base_mpct_bytes := read_u16 mem (unat (read_u32 mem (a + 4)) + 4)\<rparr>))"
proof -
  from mp_scan_cases [OF assms(1)] assms(2)
  have p: "p = a" and m: "read_u32 mem a = MPFP_SIGNATURE" by auto
  have s: "mp_scan mem 0xF0000 (mpfp g) = (a, a)" using assms(1) p by simp
  show ?thesis
    using assms(2) p m
    by (simp add: mp_setup_def s Let_def MPFP_SIGNATURE_iff MPCT_SIGNATURE_iff
        MPFP_SIGNATURE_BYTES_def MPCT_SIGNATURE_BYTES_def phys_to_virt_def ucast_read_u32)
qed

text \<open>
  In the sample image the pointer is \<open>0x1000\<close>, the table there starts with \<open>PCMP\<close>,
  and the size stored is 72 although the two bytes after the size field are not zero.
\<close>

theorem mp_setup_config_table_witness:
  "mp_scan demo_mem 0xF0000 (mpfp demo_globals) = (0xF0020, 0xF0020)
   \<and> (0xF0020 :: nat) \<noteq> 0x100000
   \<and> has_signature demo_mem 0x1000 ''PCMP''
   \<and> mp_setup demo_mem demo_globals
       = Inr \<lparr>base_mpct_bytes = 72, mpfp = 0xF0020, mpct = 0x1000\<rparr>"
proof -
  have n: "(0xF0020 :: nat) \<noteq> 0x100000" by simp
  have "mp_setup demo_mem demo_globals
       = Inr \<lparr>base_mpct_bytes = 72, mpfp = 0xF0020, mpct = 0x1000\<rparr>"
    using mp_setup_config_table [OF demo_scan n, of demo_globals] demo_PCMP
      demo_pointer demo_size by (simp add: demo_globals_def)
  with demo_scan n demo_PCMP show ?thesis by simp
qed

text \<open>
  Claim C1. After the two dumps, \<open>mp_show\<close> prints the base table entry by entry. The
  walk starts at offset 44, right after the header. For every entry the line holds its
  position and then the bytes of the table from that position over its stride, which
  is 20 when the byte at the position is 0 and 8 otherwise; the next entry starts one
  stride further; every entry starts below the declared size, and the walk stops at
  the first position that is not below it, so no entry that starts at or past it is
  printed, whatever bytes follow.
\<close>

theorem mp_show_walk:
  "mp_show mem g =
     ''\<newline>MP Floating Pointer Structure:\<newline>''
     @ concat (map (dump_byte mem (mpfp g)) [0..<16]) @ ''\<newline>''
     @ ''\<newline>MP Configuration Table Header:\<newline>''
     @ concat (map (dump_byte mem (mpct g)) [0..<44]) @ ''\<newline>''
     @ ''\<newline>Base MP Configuration Table:\<newline>''
     @ concat (map (\<lambda>e. ''\<newline>0x'' @ fmt_X 3 (pos e) @ '':''
                       @ concat (map (\<lambda>i. '' '' @ fmt_X 2 (unat (mem (mpct g + (pos e + i)))))
                                   [0..<entry_bytes e]))
                 (mp_walk mem (mpct g) MPCT_HEADER_BYTES (base_mpct_bytes g)))
     @ ''\<newline>''
   \<and> (MPCT_HEADER_BYTES < unat (base_mpct_bytes g) \<longrightarrow>
         pos (hd (mp_walk mem (mpct g) MPCT_HEADER_BYTES (base_mpct_bytes g))) = 44)
   \<and> (\<forall>e \<in> set (mp_walk mem (mpct g) MPCT_HEADER_BYTES (base_mpct_bytes g)).
         44 \<le> pos e \<and> pos e < unat (base_mpct_bytes g)
         \<and> entry_type e = mem (mpct g + pos e)
         \<and> entry_bytes e = (if entry_type e = 0 then 20 else 8)
         \<and> raw e = map (\<lambda>i. mem (mpct g + (pos e + i))) [0..<entry_bytes e]
         \<and> show_entry e =
             ''\<newline>0x'' @ fmt_X 3 (pos e) @ '':''
             @ concat (map (\<lambda>i. '' '' @ fmt_X 2 (unat (mem (mpct g + (pos e + i)))))
                         [0..<entry_bytes e]))
   \<and> (\<forall>i. Suc i < length (mp_walk mem (mpct g) MPCT_HEADER_BYTES (base_mpct_bytes g)) \<longrightarrow>
         pos (mp_walk mem (mpct g) MPCT_HEADER_BYTES (base_mpct_bytes g) ! Suc i)
           = pos (mp_walk mem (mpct g) MPCT_HEADER_BYTES (base_mpct_bytes g) ! i)
             + entry_bytes (mp_walk mem (mpct g) MPCT_HEADER_BYTES (base_mpct_bytes g) ! i))
   \<and> (mp_walk mem (mpct g) MPCT_HEADER_BYTES (base_mpct_bytes g) \<noteq> [] \<longrightarrow>
         unat (base_mpct_bytes g)
           \<le> pos (last (mp_walk mem (mpct g) MPCT_HEADER_BYTES (base_mpct_bytes g)))
              + entry_bytes (last (mp_walk mem (mpct g) MPCT_HEADER_BYTES (base_mpct_bytes g))))
   \<and> (mp_walk mem (mpct g) MPCT_HEADER_BYTES (base_mpct_bytes g) = []
         \<longleftrightarrow> unat (base_mpct_bytes g) \<le> 44)"
proof -
  let ?t = "mpct g" and ?n = "base_mpct_bytes g"
  let ?es = "mp_walk mem ?t MPCT_HEADER_BYTES ?n"
  let ?line = "\<lambda>e. ''\<newline>0x'' @ fmt_X 3 (pos e) @ '':''
                       @ concat (map (\<lambda>i. '' '' @ fmt_X 2 (unat (mem (?t + (pos e + i)))))
                                   [0..<entry_bytes e])"
  have line: "show_entry e = ?line e" if "e \<in> set ?es" for e
  proof -
    from mp_walk_entries [OF that]
    have "raw e = map (\<lambda>i. mem (?t + (pos e + i))) [0..<entry_bytes e]" by simp
    then show ?thesis by (simp add: show_entry_def comp_def)
  qed
  then have "map show_entry ?es = map ?line ?es"
    by (intro map_cong refl)
  then have 0: "mp_show mem g =
     ''\<newline>MP Floating Pointer Structure:\<newline>''
     @ concat (map (dump_byte mem (mpfp g)) [0..<16]) @ ''\<newline>''
     @ ''\<newline>MP Configuration Table Header:\<newline>''
     @ concat (map (dump_byte mem (mpct g)) [0..<44]) @ ''\<newline>''
     @ ''\<newline>Base MP Configuration Table:\<newline>''
     @ concat (map ?line ?es)
     @ ''\<newline>''"
    by (simp only: mp_show_def MPFP_STRUCTURE_BYTES_def MPCT_HEADER_BYTES_def)
  have 1: "MPCT_HEADER_BYTES < unat ?n \<longrightarrow> pos (hd ?es) = 44"
    by (simp add: mp_walk_hd) (simp add: MPCT_HEADER_BYTES_def)
  have 2: "\<forall>e \<in> set ?es.
         44 \<le> pos e \<and> pos e < unat ?n
         \<and> entry_type e = mem (?t + pos e)
         \<and> entry_bytes e = (if entry_type e = 0 then 20 else 8)
         \<and> raw e = map (\<lambda>i. mem (?t + (pos e + i))) [0..<entry_bytes e]
         \<and> show_entry e = ?line e"
  proof
    fix e assume e: "e \<in> set ?es"
    from mp_walk_entries [OF e] line [OF e]
    show "44 \<le> pos e \<and> pos e < unat ?n
         \<and> entry_type e = mem (?t + pos e)
         \<and> entry_bytes e = (if entry_type e = 0 then 20 else 8)
         \<and> raw e = map (\<lambda>i. mem (?t + (pos e + i))) [0..<entry_bytes e]
         \<and> show_entry e = ?line e"
      by (simp add: MPCT_HEADER_BYTES_def)
  qed
  have 3: "\<forall>i. Suc i < length ?es \<longrightarrow> pos (?es ! Suc i) = pos (?es ! i) + entry_bytes (?es ! i)"
    using mp_walk_next by blast
  have 4: "?es \<noteq> [] \<longrightarrow> unat ?n \<le> pos (last ?es) + entry_bytes (last ?es)"
    using mp_walk_last by blast
  have 5: "?es = [] \<longleftrightarrow> unat ?n \<le> 44"
    by (simp add: mp_walk_Nil_iff MPCT_HEADER_BYTES_def)
  show ?thesis by (intro conjI 0 1 2 3 4 5)
qed

lemma mp_walk_Cons:
  "p < unat n \<Longrightarrow>
     mp_walk mem t p n =
       \<lparr>pos = p, entry_type = mem (t + p),
        entry_bytes = (if mem (t + p) = 0 then 20 else 8),
        raw = map (\<lambda>byte. mem (t + (p + byte))) [0..<if mem (t + p) = 0 then 20 else 8],
        reads = p # map (\<lambda>byte. p + byte) [0..<if mem (t + p) = 0 then 20 else 8]\<rparr>
       # mp_walk mem t (p + (if mem (t + p) = 0 then 20 else 8)) n"
  by (subst mp_walk.simps)
    (simp add: Let_def MPCT_ENTRY_TYPE_PROCESSOR_def MPCT_ENTRY_BYTES_PROCESSOR_def
      MPCT_ENTRY_BYTES_DEFAULT_def)

lemma demo_raw_1: "map (\<lambda>byte. demo_mem (4140 + byte)) [0..<20] = replicate 20 0"
  by (simp add: list_eq_iff_nth_eq demo_mem_def)

lemma demo_raw_2: "map (\<lambda>byte. demo_mem (4160 + byte)) [0..<8] = 1 # replicate 7 0"
  by (simp add: list_eq_iff_nth_eq demo_mem_def nth_Cons')

lemma demo_walk:
  "mp_walk demo_mem 0x1000 MPCT_HEADER_BYTES 72 =
     [\<lparr>pos = 44, entry_type = 0, entry_bytes = 20, raw = replicate 20 0,
       reads = 44 # map (\<lambda>byte. 44 + byte) [0..<20]\<rparr>,
      \<lparr>pos = 64, entry_type = 1, entry_bytes = 8, raw = 1 # replicate 7 0,
       reads = 64 # map (\<lambda>byte. 64 + byte) [0..<8]\<rparr>]"
proof -
  have t1: "demo_mem 4140 = 0" and t2: "demo_mem 4160 = 1"
    by (simp_all add: demo_mem_def)
  have "mp_walk demo_mem 0x1000 72 72 = []"
    by (simp add: mp_walk_Nil_iff)
  then have "mp_walk demo_mem 0x1000 64 72 =
      [\<lparr>pos = 64, entry_type = 1, entry_bytes = 8, raw = 1 # replicate 7 0,
       reads = 64 # map (\<lambda>byte. 64 + byte) [0..<8]\<rparr>]"
    by (subst mp_walk_Cons) (simp_all add: t2 demo_raw_2)
  then show ?thesis
    unfolding MPCT_HEADER_BYTES_def
    by (subst mp_walk_Cons) (simp_all add: t1 demo_raw_1)
qed

text \<open>
  In the sample image the declared size is 72: the report shows a 20-byte entry at 44
  and an 8-byte entry at 64, and leaves alone the byte 2 at offset 72.
\<close>

theorem mp_show_walk_witness:
  "MPCT_HEADER_BYTES < unat (base_mpct_bytes demo_found)
   \<and> map pos (mp_walk demo_mem (mpct demo_found) MPCT_HEADER_BYTES (base_mpct_bytes demo_found))
       = [44, 64]
   \<and> map entry_bytes
         (mp_walk demo_mem (mpct demo_found) MPCT_HEADER_BYTES (base_mpct_bytes demo_found))
       = [20, 8]
   \<and> pos (hd (mp_walk demo_mem (mpct demo_found) MPCT_HEADER_BYTES (base_mpct_bytes demo_found)))
       = 44
   \<and> pos (mp_walk demo_mem (mpct demo_found) MPCT_HEADER_BYTES (base_mpct_bytes demo_found) ! Suc 0)
       = pos (mp_walk demo_mem (mpct demo_found) MPCT_HEADER_BYTES (base_mpct_bytes demo_found) ! 0)
         + entry_bytes
             (mp_walk demo_mem (mpct demo_found) MPCT_HEADER_BYTES (base_mpct_bytes demo_found) ! 0)
   \<and> unat (base_mpct_bytes demo_found)
       \<le> pos (last (mp_walk demo_mem (mpct demo_found) MPCT_HEADER_BYTES
                       (base_mpct_bytes demo_found)))
         + entry_bytes (last (mp_walk demo_mem (mpct demo_found) MPCT_HEADER_BYTES
                                (base_mpct_bytes demo_found)))
   \<and> pos (last (mp_walk demo_mem (mpct demo_found) MPCT_HEADER_BYTES
                   (base_mpct_bytes demo_found)))
       < unat (base_mpct_bytes demo_found)
   \<and> demo_mem (mpct demo_found + 72) = 2
   \<and> mp_show demo_mem demo_found =
       ''\<newline>MP Floating Pointer Structure:\<newline>''
       @ concat (map (dump_byte demo_mem (mpfp demo_found)) [0..<16]) @ ''\<newline>''
       @ ''\<newline>MP Configuration Table Header:\<newline>''
       @ concat (map (dump_byte demo_mem (mpct demo_found)) [0..<44]) @ ''\<newline>''
       @ ''\<newline>Base MP Configuration Table:\<newline>''
       @ ''\<newline>0x02C: 00 00 00 00 00 00 00 00 00 00 00 00 00 00 00 00 00 00 00 00''
       @ ''\<newline>0x040: 01 00 00 00 00 00 00 00''
       @ ''\<newline>''"
proof -
  let ?es = "mp_walk demo_mem (mpct demo_found) MPCT_HEADER_BYTES (base_mpct_bytes demo_found)"
  let ?line = "\<lambda>e. ''\<newline>0x'' @ fmt_X 3 (pos e) @ '':''
                 @ concat (map (\<lambda>i. '' '' @ fmt_X 2 (unat (demo_mem (mpct demo_found + (pos e + i)))))
                             [0..<entry_bytes e])"
  have w: "?es =
     [\<lparr>pos = 44, entry_type = 0, entry_bytes = 20, raw = replicate 20 0,
       reads = 44 # map (\<lambda>byte. 44 + byte) [0..<20]\<rparr>,
      \<lparr>pos = 64, entry_type = 1, entry_bytes = 8, raw = 1 # replicate 7 0,
       reads = 64 # map (\<lambda>byte. 64 + byte) [0..<8]\<rparr>]"
    using demo_walk by (simp add: demo_found_def)
  have h: "MPCT_HEADER_BYTES < unat (base_mpct_bytes demo_found)" "Suc 0 < length ?es"
    "?es \<noteq> []" "last ?es \<in> set ?es"
    unfolding w by (simp_all add: demo_found_def MPCT_HEADER_BYTES_def)
  have m: "map pos ?es = [44, 64]" "map entry_bytes ?es = [20, 8]"
    "demo_mem (mpct demo_found + 72) = 2"
    unfolding w by (simp_all add: demo_found_def demo_mem_def)
  note T = mp_show_walk [of demo_mem demo_found]
  from T h
  have p: "pos (hd ?es) = 44"
    "pos (?es ! Suc 0) = pos (?es ! 0) + entry_bytes (?es ! 0)"
    "unat (base_mpct_bytes demo_found) \<le> pos (last ?es) + entry_bytes (last ?es)"
    "pos (last ?es) < unat (base_mpct_bytes demo_found)"
    by blast+
  from T have "\<forall>e \<in> set ?es. show_entry e = ?line e" by blast
  then have "map ?line ?es = map show_entry ?es"
    by (intro map_cong refl) simp
  also have "\<dots> =
      [''\<newline>0x02C: 00 00 00 00 00 00 00 00 00 00 00 00 00 00 00 00 00 00 00 00'',
       ''\<newline>0x040: 01 00 00 00 00 00 00 00'']"
    unfolding w by (simp add: show_entry_def fmt_eval)
  finally have l: "concat (map ?line ?es) =
      ''\<newline>0x02C: 00 00 00 00 00 00 00 00 00 00 00 00 00 00 00 00 00 00 00 00''
      @ ''\<newline>0x040: 01 00 00 00 00 00 00 00''"
    by simp
  from T have "mp_show demo_mem demo_found =
       ''\<newline>MP Floating Pointer Structure:\<newline>''
       @ concat (map (dump_byte demo_mem (mpfp demo_found)) [0..<16]) @ ''\<newline>''
       @ ''\<newline>MP Configuration Table Header:\<newline>''
       @ concat (map (dump_byte demo_mem (mpct demo_found)) [0..<44]) @ ''\<newline>''
       @ ''\<newline>Base MP Configuration Table:\<newline>''
       @ concat (map ?line ?es)
       @ ''\<newline>''"
    by blast
  then have s: "mp_show demo_mem demo_found =
       ''\<newline>MP Floating Pointer Structure:\<newline>''
       @ concat (map (dump_byte demo_mem (mpfp demo_found)) [0..<16]) @ ''\<newline>''
       @ ''\<newline>MP Configuration Table Header:\<newline>''
       @ concat (map (dump_byte demo_mem (mpct demo_found)) [0..<44]) @ ''\<newline>''
       @ ''\<newline>Base MP Configuration Table:\<newline>''
       @ ''\<newline>0x02C: 00 00 00 00 00 00 00 00 00 00 00 00 00 00 00 00 00 00 00 00''
       @ ''\<newline>0x040: 01 00 00 00 00 00 00 00''
       @ ''\<newline>''"
    unfolding l by (simp only: append_assoc)
  show ?thesis by (intro conjI h(1) m p s)
qed

text \<open>
  Claim C10. When the declared size is at most 44, the third loop of \<open>mp_show\<close> prints
  no entry, every offset of the table that \<open>mp_show\<close> reads is below 44, and the
  report ends right after the title of the base table.
\<close>

theorem mp_show_empty_table:
  assumes "unat (base_mpct_bytes g) \<le> MPCT_HEADER_BYTES"
  shows "mp_walk mem (mpct g) MPCT_HEADER_BYTES (base_mpct_bytes g) = []
     \<and> (\<forall>off \<in> set (mpct_reads mem g). off < MPCT_HEADER_BYTES)
     \<and> mp_show mem g =
         ''\<newline>MP Floating Pointer Structure:\<newline>''
         @ concat (map (dump_byte mem (mpfp g)) [0..<MPFP_STRUCTURE_BYTES]) @ ''\<newline>''
         @ ''\<newline>MP Configuration Table Header:\<newline>''
         @ concat (map (dump_byte mem (mpct g)) [0..<MPCT_HEADER_BYTES]) @ ''\<newline>''
         @ ''\<newline>Base MP Configuration Table:\<newline>'' @ ''\<newline>''"
proof -
  have e: "mp_walk mem (mpct g) MPCT_HEADER_BYTES (base_mpct_bytes g) = []"
    using assms by (simp add: mp_walk_Nil_iff)
  then show ?thesis by (simp add: mpct_reads_def mp_show_def)
qed

text \<open>A table whose declared size is exactly 44.\<close>

theorem mp_show_empty_table_witness:
  "unat (base_mpct_bytes \<lparr>base_mpct_bytes = 44, mpfp = 0xF0020, mpct = 0x1000\<rparr>) \<le> MPCT_HEADER_BYTES
   \<and> mp_walk demo_mem 0x1000 MPCT_HEADER_BYTES 44 = []
   \<and> mpct_reads demo_mem \<lparr>base_mpct_bytes = 44, mpfp = 0xF0020, mpct = 0x1000\<rparr> = [0..<44]"
proof -
  have h: "unat (base_mpct_bytes \<lparr>base_mpct_bytes = 44, mpfp = 0xF0020, mpct = 0x1000\<rparr>) \<le> MPCT_HEADER_BYTES"
    by (simp add: MPCT_HEADER_BYTES_def)
  from mp_show_empty_table [OF h, of demo_mem] h
  show ?thesis by (simp add: mpct_reads_def) (simp add: MPCT_HEADER_BYTES_def)
qed

section \<open>Properties of the ioapic viewer\<close>


lemma ID_MASK_bits: "bit IOAPIC_REG_ID_MASK_ID n \<longleftrightarrow> 24 \<le> n \<and> n \<le> 27"
proof -
  have "bit IOAPIC_REG_ID_MASK_ID n = bit (push_bit 24 (mask 4) :: u32) n"
    by (simp add: IOAPIC_REG_ID_MASK_ID_def mask_eq_exp_minus_1 push_bit_eq_mult)
  then show ?thesis
    by (auto simp: bit_push_bit_iff bit_mask_iff)
qed

lemma VER_MASK_bits: "bit IOAPIC_REG_VER_MASK_VER n \<longleftrightarrow> n \<le> 7"
proof -
  have "bit IOAPIC_REG_VER_MASK_VER n = bit (mask 8 :: u32) n"
    by (simp add: IOAPIC_REG_VER_MASK_VER_def mask_eq_exp_minus_1)
  then show ?thesis
    by (auto simp: bit_mask_iff)
qed

lemma MAX_ENTRIES_MASK_bits: "bit IOAPIC_REG_VER_MASK_MAX_ENTRIES n \<longleftrightarrow> 16 \<le> n \<and> n \<le> 23"
proof -
  have "bit IOAPIC_REG_VER_MASK_MAX_ENTRIES n = bit (push_bit 16 (mask 8) :: u32) n"
    by (simp add: IOAPIC_REG_VER_MASK_MAX_ENTRIES_def mask_eq_exp_minus_1 push_bit_eq_mult)
  then show ?thesis
    by (auto simp: bit_push_bit_iff bit_mask_iff)
qed

lemma bit_and_not:
  fixes x m :: u32
  shows "bit (x AND NOT m) n \<longleftrightarrow> bit x n \<and> \<not> bit m n"
  using bit_imp_le_length [of x n] by (auto simp: bit_and_iff bit_not_iff)

lemma nonzero_iff:
  fixes x :: u32
  shows "x \<noteq> 0 \<longleftrightarrow> (\<exists>n. bit x n)"
  using bit_imp_le_length [of x] by (auto simp: bit_eq_iff)

lemma outside_iff:
  fixes x m :: u32
  shows "x AND NOT m \<noteq> 0 \<longleftrightarrow> (\<exists>n. bit x n \<and> \<not> bit m n)"
  by (simp only: nonzero_iff bit_and_not)

lemma outside2_iff:
  fixes x m k :: u32
  shows "x AND NOT m AND NOT k \<noteq> 0 \<longleftrightarrow> (\<exists>n. bit x n \<and> \<not> bit m n \<and> \<not> bit k n)"
proof -
  have "bit (x AND NOT m AND NOT k) n \<longleftrightarrow> bit x n \<and> \<not> bit m n \<and> \<not> bit k n" for n
    using bit_imp_le_length [of x n] by (auto simp: bit_and_iff bit_not_iff)
  then show ?thesis by (simp add: nonzero_iff)
qed

lemma ioapic_setup_result:
  "fst (ioapic_setup hw b st) =
     (if hw b IOAPIC_REG_ID AND NOT IOAPIC_REG_ID_MASK_ID \<noteq> 0
         \<or> hw b IOAPIC_REG_VER AND NOT IOAPIC_REG_VER_MASK_VER AND NOT IOAPIC_REG_VER_MASK_MAX_ENTRIES \<noteq> 0
      then Inl InvalidRegisterContents else Inr ())"
  by (simp add: ioapic_setup_def ioremap_nocache_def ioapic_read_def)

text \<open>
  Claim C2. \<open>ioapic_setup\<close> fails with \<open>InvalidRegisterContents\<close> exactly when the value
  read from the identification register has a bit set outside bits 24 to 27, or the
  value read from the version register has a bit set outside bits 0 to 7 and 16 to 23;
  it succeeds exactly when every set bit of both values lies inside those fields.
\<close>

theorem ioapic_setup_reserved_bits:
  "(fst (ioapic_setup hw b st) = Inl InvalidRegisterContents
      \<longleftrightarrow> (\<exists>n. bit (hw b IOAPIC_REG_ID) n \<and> \<not> (24 \<le> n \<and> n \<le> 27))
          \<or> (\<exists>n. bit (hw b IOAPIC_REG_VER) n \<and> \<not> n \<le> 7 \<and> \<not> (16 \<le> n \<and> n \<le> 23)))
   \<and> (fst (ioapic_setup hw b st) = Inr ()
      \<longleftrightarrow> (\<forall>n. bit (hw b IOAPIC_REG_ID) n \<longrightarrow> 24 \<le> n \<and> n \<le> 27)
          \<and> (\<forall>n. bit (hw b IOAPIC_REG_VER) n \<longrightarrow> n \<le> 7 \<or> 16 \<le> n \<and> n \<le> 23))"
  unfolding ioapic_setup_result outside_iff outside2_iff ID_MASK_bits VER_MASK_bits MAX_ENTRIES_MASK_bits
  by auto


declare ioapic_walk.simps [simp del]

lemma demo_setup_good: "fst (ioapic_setup demo_hw 0xFEC00000 st) = Inr ()"
  by (simp add: ioapic_setup_result demo_hw_def IOAPIC_REG_ID_def IOAPIC_REG_VER_def
      IOAPIC_REG_ID_MASK_ID_def IOAPIC_REG_VER_MASK_VER_def IOAPIC_REG_VER_MASK_MAX_ENTRIES_def)

lemma demo_setup_bad: "fst (ioapic_setup demo_hw 0xDEAD0000 st) = Inl InvalidRegisterContents"
  by (simp add: ioapic_setup_result demo_hw_def IOAPIC_REG_ID_def IOAPIC_REG_VER_def
      IOAPIC_REG_ID_MASK_ID_def IOAPIC_REG_VER_MASK_VER_def IOAPIC_REG_VER_MASK_MAX_ENTRIES_def)

text \<open>
  The sample controller at \<open>0xFEC00000\<close> passes, and has neither bit 3 of the
  identification nor bit 8 of the version set; an address without a controller reads
  all ones, has bit 3 set, and fails.
\<close>

theorem ioapic_setup_reserved_bits_witness:
  "fst (ioapic_setup demo_hw 0xFEC00000 demo_unloaded) = Inr ()
   \<and> \<not> bit (demo_hw 0xFEC00000 IOAPIC_REG_ID) 3
   \<and> \<not> bit (demo_hw 0xFEC00000 IOAPIC_REG_VER) 8
   \<and> bit (demo_hw 0xDEAD0000 IOAPIC_REG_ID) 3
   \<and> fst (ioapic_setup demo_hw 0xDEAD0000 demo_unloaded) = Inl InvalidRegisterContents"
proof -
  have b: "bit (demo_hw 0xDEAD0000 IOAPIC_REG_ID) 3"
    by (simp add: demo_hw_def bit_iff_odd)
  then have "\<exists>n. bit (demo_hw 0xDEAD0000 IOAPIC_REG_ID) n \<and> \<not> (24 \<le> n \<and> n \<le> 27)"
    by (intro exI [of _ 3]) simp
  with ioapic_setup_reserved_bits [of demo_hw "0xDEAD0000" demo_unloaded]
  have 1: "fst (ioapic_setup demo_hw 0xDEAD0000 demo_unloaded) = Inl InvalidRegisterContents"
    by blast
  have g: "fst (ioapic_setup demo_hw 0xFEC00000 demo_unloaded) = Inr ()"
    by (rule demo_setup_good)
  with ioapic_setup_reserved_bits [of demo_hw "0xFEC00000" demo_unloaded]
  have "bit (demo_hw 0xFEC00000 IOAPIC_REG_ID) 3 \<longrightarrow> 24 \<le> (3::nat) \<and> (3::nat) \<le> 27"
    and "bit (demo_hw 0xFEC00000 IOAPIC_REG_VER) 8 \<longrightarrow> (8::nat) \<le> 7 \<or> 16 \<le> (8::nat) \<and> (8::nat) \<le> 23"
    by blast+
  then have 2: "\<not> bit (demo_hw 0xFEC00000 IOAPIC_REG_ID) 3"
    "\<not> bit (demo_hw 0xFEC00000 IOAPIC_REG_VER) 8"
    by simp_all
  from g 2 b 1 show ?thesis by (intro conjI)
qed

lemma ioapic_walk_eq:
  "ioapic_walk hw k st =
     (map (\<lambda>n. \<lparr>pin = n,
                 word_lo = hw (ioapic_addr st) (of_nat (0x10 + 2 * n)),
                 word_hi = hw (ioapic_addr st) (of_nat (0x11 + 2 * n))\<rparr>)
        [k..<Suc (unat (max_entries st))],
      st\<lparr>accesses := accesses st
           @ concat (map (\<lambda>n. [of_nat (0x10 + 2 * n), of_nat (0x11 + 2 * n)])
                       [k..<Suc (unat (max_entries st))])\<rparr>)"
proof (induction "Suc (unat (max_entries st)) - k" arbitrary: k st)
  case 0
  then have "\<not> k \<le> unat (max_entries st)" by simp
  then show ?case by (subst ioapic_walk.simps) simp
next
  case (Suc d)
  then have k: "k \<le> unat (max_entries st)" by simp
  let ?st2 = "st\<lparr>accesses := accesses st @ [of_nat (0x10 + 2 * k), of_nat (0x11 + 2 * k)]\<rparr>"
  have d: "d = Suc (unat (max_entries ?st2)) - Suc k" using Suc.hyps(2) by simp
  have u: "[k..<Suc (unat (max_entries st))] = k # [Suc k..<Suc (unat (max_entries st))]"
    using k by (simp add: upt_conv_Cons)
  have step: "ioapic_walk hw k st =
      (case ioapic_walk hw (Suc k) ?st2 of (es, st3) \<Rightarrow>
         (\<lparr>pin = k, word_lo = hw (ioapic_addr st) (of_nat (0x10 + 2 * k)),
           word_hi = hw (ioapic_addr st) (of_nat (0x11 + 2 * k))\<rparr> # es, st3))"
    using k by (subst ioapic_walk.simps) (simp add: ioapic_read_def)
  show ?case
    unfolding step Suc.hyps(1) [OF d] u by (simp del: upt_Suc)
qed

lemma ioapic_walk_mapped:
  "mapped (snd (ioapic_walk hw k st)) = mapped st"
  "ioapic_addr (snd (ioapic_walk hw k st)) = ioapic_addr st"
  by (simp_all add: ioapic_walk_eq)

lemma ioapic_setup_mapped:
  "mapped (snd (ioapic_setup hw b st)) = b # mapped st"
  "ioapic_addr (snd (ioapic_setup hw b st)) = b"
  by (simp_all add: ioapic_setup_def ioremap_nocache_def ioapic_read_def)

lemma ioapic_show_mapped:
  "mapped (snd (ioapic_show hw st)) = remove1 (ioapic_addr st) (mapped st)"
  by (simp add: ioapic_show_def iounmap_def split_beta ioapic_walk_mapped)


lemma demo_loaded_eq:
  "demo_loaded = \<lparr>mapped = [0xFEC00000], ioapic_addr = 0xFEC00000, ioapic_id = 2,
      version = 0x11, max_entries = 23, accesses = [0, 1]\<rparr>"
  by (simp add: demo_loaded_def ioapic_init_def demo_params_def demo_unloaded_def
      ioapic_setup_def ioremap_nocache_def ioapic_read_def demo_hw_def
      IOAPIC_REG_ID_def IOAPIC_REG_VER_def IOAPIC_REG_ID_SHIFT_ID_def IOAPIC_REG_VER_SHIFT_VER_def
      IOAPIC_REG_VER_SHIFT_MAX_ENTRIES_def
      IOAPIC_REG_ID_MASK_ID_def IOAPIC_REG_VER_MASK_VER_def IOAPIC_REG_VER_MASK_MAX_ENTRIES_def)


lemma ioapic_setup_failed_state:
  "fst (ioapic_setup hw b st) = Inl e \<Longrightarrow>
     snd (ioapic_setup hw b st)
       = st\<lparr>mapped := b # mapped st, ioapic_addr := b,
            accesses := accesses st @ [IOAPIC_REG_ID, IOAPIC_REG_VER]\<rparr>"
  by (simp add: ioapic_setup_def ioremap_nocache_def ioapic_read_def split: if_splits)

lemma ioapic_show_text:
  "fst (ioapic_show hw st) =
     ''\<newline>IO-APIC    ID '' @ fmt_X 0 (unat (ioapic_id st))
     @ ''    Version: '' @ fmt_X 2 (unat (version st))
     @ ''    Max entries: '' @ fmt_d 0 (sint (max_entries st + 1)) @ ''\<newline>''
     @ concat (map (\<lambda>n. show_rt_entry
                      \<lparr>pin = n, word_lo = hw (ioapic_addr st) (of_nat (0x10 + 2 * n)),
                       word_hi = hw (ioapic_addr st) (of_nat (0x11 + 2 * n))\<rparr>)
                 [0..<Suc (unat (max_entries st))])
     @ ''\<newline>\<newline>''"
  by (simp add: ioapic_show_def ioapic_walk_eq comp_def del: upt_Suc)

text \<open>
  The two routines that load a module stop when setup fails; the open routines of the
  ioapic module do not look at what setup returns.
\<close>

lemma ioapic_init_checks_setup:
  "fst (ioapic_setup hw (ucast (ioapic0_base prm)) st) = Inl e \<Longrightarrow>
     fst (ioapic_init hw prm st) = Inl e"
  by (cases "ioapic_setup hw (ucast (ioapic0_base prm)) st") (simp add: ioapic_init_def)

lemma mp_init_checks_setup: "mp_setup mem g = Inl e \<Longrightarrow> mp_init mem g = Inl e"
  by (simp add: mp_init_def)

lemma ioapic0_open_eq:
  "ioapic0_open hw prm st
     = (Inr (ioapic_show hw), snd (ioapic_setup hw (ucast (ioapic0_base prm)) st))"
  by (simp add: ioapic0_open_def single_open_def split_beta)

lemma ioapic1_open_eq:
  "ioapic1_open hw prm st
     = (Inr (ioapic_show hw), snd (ioapic_setup hw (ucast (ioapic1_base prm)) st))"
  by (simp add: ioapic1_open_def single_open_def split_beta)

lemma demo_moved_base: "ucast (ioapic0_base moved_params) = (0xDEAD0000 :: u32)"
  by (simp add: moved_params_def)

lemma demo_failed_open_state:
  "snd (ioapic_setup demo_hw 0xDEAD0000 demo_loaded)
     = \<lparr>mapped = [0xDEAD0000, 0xFEC00000], ioapic_addr = 0xDEAD0000, ioapic_id = 2,
        version = 0x11, max_entries = 23, accesses = [0, 1, 0, 1]\<rparr>"
  unfolding ioapic_setup_failed_state [OF demo_setup_bad]
  by (simp add: demo_loaded_eq IOAPIC_REG_ID_def IOAPIC_REG_VER_def)

text \<open>
  Claim C3, at an input where it fails. The module has been loaded on the sample
  controller and \<open>ioapic0_base\<close> moved afterwards. In the next open \<open>ioapic_setup\<close> fails
  with \<open>InvalidRegisterContents\<close>, but \<open>ioapic0_open\<close> does not fail: it installs
  \<open>ioapic_show\<close> and returns 0, and the read that follows renders a report with the
  identification, version and entry count of the earlier setup and 24 entries of all
  ones.
\<close>

theorem ioapic0_open_after_failed_setup:
  "fst (ioapic_init demo_hw demo_params demo_unloaded) = Inr [''ioapic0'']
   \<and> fst (ioapic_setup demo_hw (ucast (ioapic0_base moved_params)) demo_loaded)
       = Inl InvalidRegisterContents
   \<and> fst (ioapic0_open demo_hw moved_params demo_loaded) = Inr (ioapic_show demo_hw)
   \<and> fst (seq_read (ioapic_show demo_hw) (snd (ioapic0_open demo_hw moved_params demo_loaded)))
       = ''\<newline>IO-APIC    ID 2    Version: 11    Max entries: 24\<newline>''
         @ concat (map (\<lambda>n. show_rt_entry \<lparr>pin = n, word_lo = 0xFFFFFFFF, word_hi = 0xFFFFFFFF\<rparr>)
                     [0..<24])
         @ ''\<newline>\<newline>''"
proof -
  have i: "fst (ioapic_init demo_hw demo_params demo_unloaded) = Inr [''ioapic0'']"
    using demo_setup_good [of demo_unloaded]
    by (simp add: ioapic_init_def demo_params_def split_beta split: sum.splits prod.splits)
  have f: "fst (ioapic_setup demo_hw (ucast (ioapic0_base moved_params)) demo_loaded)
       = Inl InvalidRegisterContents"
    unfolding demo_moved_base by (rule demo_setup_bad)
  have opened: "fst (ioapic0_open demo_hw moved_params demo_loaded) = Inr (ioapic_show demo_hw)"
    by (simp add: ioapic0_open_eq)
  have "fst (seq_read (ioapic_show demo_hw) (snd (ioapic0_open demo_hw moved_params demo_loaded)))
       = ''\<newline>IO-APIC    ID 2    Version: 11    Max entries: 24\<newline>''
         @ concat (map (\<lambda>n. show_rt_entry \<lparr>pin = n, word_lo = 0xFFFFFFFF, word_hi = 0xFFFFFFFF\<rparr>)
                     [0..<24])
         @ ''\<newline>\<newline>''"
    unfolding seq_read_def ioapic0_open_eq snd_conv demo_moved_base demo_failed_open_state
      ioapic_show_text
    by (simp add: demo_hw_def fmt_eval del: upt_Suc)
  with i f opened show ?thesis by (intro conjI)
qed

lemma ioapic_open_mapped:
  "mapped (snd (ioapic0_open hw prm st)) = ucast (ioapic0_base prm) # mapped st"
  "mapped (snd (ioapic1_open hw prm st)) = ucast (ioapic1_base prm) # mapped st"
  by (simp_all add: ioapic0_open_eq ioapic1_open_eq ioapic_setup_mapped)

lemma ioapic_read_after_open:
  "mapped (snd (seq_read (ioapic_show hw) (snd (ioapic0_open hw prm st)))) = mapped st"
  by (simp add: seq_read_def ioapic0_open_eq ioapic_show_mapped ioapic_setup_mapped)

lemma ioapic_second_read:
  "mapped (snd (seq_read (ioapic_show hw)
             (snd (seq_read (ioapic_show hw) (snd (ioapic0_open hw prm st))))))
     = remove1 (ucast (ioapic0_base prm)) (mapped st)"
proof -
  have "ioapic_addr (snd (ioapic_show hw s)) = ioapic_addr s" for s
    by (simp add: ioapic_show_def iounmap_def split_beta ioapic_walk_mapped)
  then show ?thesis
    by (simp add: seq_read_def ioapic0_open_eq ioapic_show_mapped ioapic_setup_mapped)
qed

lemma ioapic_init_failure_mapped:
  "fst (ioapic_setup hw (ucast (ioapic0_base prm)) st) = Inl e \<Longrightarrow>
     mapped (snd (ioapic_init hw prm st)) = ucast (ioapic0_base prm) # mapped st"
  using ioapic_setup_mapped(1) [of hw "ucast (ioapic0_base prm)" st]
  by (cases "ioapic_setup hw (ucast (ioapic0_base prm)) st") (simp add: ioapic_init_def)

text \<open>
  Claim C4, at inputs where it fails. \<open>ioapic_setup\<close> maps the window and no return of
  it unmaps; the only \<open>iounmap\<close> is at the end of \<open>ioapic_show\<close>, which the open routines
  install and do not run. With \<open>ioapic0_base\<close> moved, validation fails in the open and
  \<open>ioapic0_open\<close> returns with the new window mapped beside the one the load has left;
  an open on the sample controller returns with its window mapped too; and a load at
  the moved address fails with its window mapped, which nothing releases afterwards.
\<close>

theorem ioapic_open_holds_window:
  "fst (ioapic_setup demo_hw (ucast (ioapic0_base moved_params)) demo_loaded)
     = Inl InvalidRegisterContents
   \<and> mapped demo_loaded = [0xFEC00000]
   \<and> mapped (snd (ioapic0_open demo_hw moved_params demo_loaded)) = [0xDEAD0000, 0xFEC00000]
   \<and> mapped (snd (ioapic0_open demo_hw demo_params demo_loaded)) = [0xFEC00000, 0xFEC00000]
   \<and> fst (ioapic_init demo_hw moved_params demo_unloaded) = Inl InvalidRegisterContents
   \<and> mapped (snd (ioapic_init demo_hw moved_params demo_unloaded)) = [0xDEAD0000]"
proof -
  have f: "fst (ioapic_setup demo_hw (ucast (ioapic0_base moved_params)) st)
       = Inl InvalidRegisterContents" for st
    unfolding demo_moved_base by (rule demo_setup_bad)
  have l: "mapped demo_loaded = [0xFEC00000]"
    by (simp add: demo_loaded_eq)
  have 1: "mapped (snd (ioapic0_open demo_hw moved_params demo_loaded)) = [0xDEAD0000, 0xFEC00000]"
    by (simp add: ioapic_open_mapped demo_moved_base l)
  have 2: "mapped (snd (ioapic0_open demo_hw demo_params demo_loaded)) = [0xFEC00000, 0xFEC00000]"
    by (simp add: ioapic_open_mapped l) (simp add: demo_params_def)
  have 3: "fst (ioapic_init demo_hw moved_params demo_unloaded) = Inl InvalidRegisterContents"
    using f by (rule ioapic_init_checks_setup)
  have 4: "mapped (snd (ioapic_init demo_hw moved_params demo_unloaded)) = [0xDEAD0000]"
    using ioapic_init_failure_mapped [OF f, of demo_unloaded]
    by (simp add: demo_moved_base demo_unloaded_def)
  show ?thesis by (intro conjI f l 1 2 3 4)
qed














section \<open>Properties of the idt viewer\<close>


lemma digit_char_0: "digit_char 0 = CHR ''0''"
  by (simp add: digit_char_def)

lemma fixed_digits_0: "fixed_digits b k 0 = replicate k (CHR ''0'')"
  by (induction k) (simp_all add: digit_char_0 replicate_append_same)

lemma num_str_pad:
  "1 < b \<Longrightarrow>
     replicate k (CHR ''0'') @ num_str b n = fixed_digits b (k + length (num_str b n)) n"
proof (induction b n arbitrary: k rule: num_str.induct)
  case (1 b n)
  show ?case
  proof (cases "n < b")
    case True
    then have "num_str b n = [digit_char n]" by (subst num_str.simps) simp
    with True show ?thesis by (simp add: fixed_digits_0)
  next
    case False
    with "1.prems" have c: "\<not> (n < b \<or> b < 2)" by simp
    then have e: "num_str b n = num_str b (n div b) @ [digit_char (n mod b)]"
      by (subst num_str.simps) simp
    from "1.IH" [OF c "1.prems", of k] show ?thesis
      by (simp add: e)
  qed
qed

lemma num_str_length:
  "1 < b \<Longrightarrow> 0 < w \<Longrightarrow> n < b ^ w \<Longrightarrow> length (num_str b n) \<le> w"
proof (induction w arbitrary: n)
  case 0
  then show ?case by simp
next
  case (Suc w)
  show ?case
  proof (cases "n < b")
    case True
    then have "num_str b n = [digit_char n]" by (subst num_str.simps) simp
    then show ?thesis by simp
  next
    case False
    with Suc.prems have c: "\<not> (n < b \<or> b < 2)" by simp
    then have e: "num_str b n = num_str b (n div b) @ [digit_char (n mod b)]"
      by (subst num_str.simps) simp
    have w: "0 < w" using False Suc.prems by (cases w) auto
    have "n div b < b ^ w"
      using Suc.prems by (simp add: less_mult_imp_div_less mult.commute)
    from Suc.IH [OF Suc.prems(1) w this] show ?thesis by (simp add: e)
  qed
qed

lemma fmt_X_fixed:
  assumes "0 < w" "n < 16 ^ w"
  shows "fmt_X w n = fixed_digits 16 w n"
proof -
  have "length (num_str 16 n) \<le> w"
    using assms by (intro num_str_length) simp_all
  then have "w - length (num_str 16 n) + length (num_str 16 n) = w" by simp
  with num_str_pad [of 16 "w - length (num_str 16 n)" n] show ?thesis
    by (simp add: fmt_X_def)
qed

lemma fixed_digits_append:
  "0 < b \<Longrightarrow> lo < b ^ w2 \<Longrightarrow>
     fixed_digits b (w1 + w2) (hi * b ^ w2 + lo) = fixed_digits b w1 hi @ fixed_digits b w2 lo"
proof (induction w2 arbitrary: lo)
  case 0
  then show ?case by simp
next
  case (Suc w2)
  have d: "(hi * (b * b ^ w2) + lo) div b = hi * b ^ w2 + lo div b"
    using Suc.prems(1) by (simp add: mult.commute mult.left_commute)
  have m: "(hi * (b * b ^ w2) + lo) mod b = lo mod b"
    by (simp add: mult.commute mult.left_commute)
  have "lo div b < b ^ w2"
    using Suc.prems by (simp add: less_mult_imp_div_less mult.commute)
  from Suc.IH [OF Suc.prems(1) this] show ?case
    by (simp add: d m)
qed


lemma high_half:
  fixes b :: u32
  shows "b AND 0xFFFF0000 = push_bit 16 (drop_bit 16 b)"
proof -
  have h: "(0xFFFF0000 :: u32) = push_bit 16 (mask 16)"
    by (simp add: mask_eq_exp_minus_1 push_bit_eq_mult)
  show ?thesis
    unfolding h
    by (rule bit_eqI) (auto simp: bit_and_iff bit_push_bit_iff bit_drop_bit_eq bit_mask_iff
        dest: bit_imp_le_length)
qed

lemma unat_drop16_lt:
  fixes b :: u32
  shows "unat (drop_bit 16 b) < 65536"
proof -
  have "unat b < 4294967296" using unsigned_less [of b] by simp
  moreover have "unat (drop_bit 16 b) = drop_bit 16 (unat b)"
    by (rule unat_drop_bit_eq)
  ultimately show ?thesis by (simp add: drop_bit_eq_div)
qed

lemma unat_push16:
  fixes x :: u32
  assumes "unat x < 65536"
  shows "unat (push_bit 16 x) = unat x * 65536"
proof -
  have "unat (push_bit 16 x) = take_bit 32 (push_bit 16 (unat x))"
    by (simp only: unsigned_push_bit_eq) simp
  also have "\<dots> = unat x * 65536"
    using assms by (simp add: take_bit_eq_mod push_bit_eq_mult)
  finally show ?thesis .
qed

lemma u16_lt: "unat (x :: u16) < 65536"
  using unsigned_less [of x] by simp

lemma u32_lt: "unat (x :: u32) < 4294967296"
  using unsigned_less [of x] by simp

lemma narrow_offset:
  fixes b :: u32 and l :: u16
  shows "unat ((b AND 0xFFFF0000) + ucast l) = unat (drop_bit 16 b) * 2 ^ 16 + unat l"
proof -
  have p: "unat (push_bit 16 (drop_bit 16 b)) = unat (drop_bit 16 b) * 65536"
    using unat_drop16_lt [of b] by (rule unat_push16)
  have c: "unat (ucast l :: u32) = unat l"
    using u16_lt [of l] by (simp add: unsigned_ucast_eq take_bit_eq_mod)
  have "unat (push_bit 16 (drop_bit 16 b)) + unat (ucast l :: u32) < 2 ^ LENGTH(32)"
    using unat_drop16_lt [of b] u16_lt [of l] unfolding p c by simp
  then have "unat (push_bit 16 (drop_bit 16 b) + ucast l)
      = unat (push_bit 16 (drop_bit 16 b)) + unat (ucast l :: u32)"
    by (simp only: unat_add_lem)
  then show ?thesis by (simp add: high_half p c)
qed


lemma show_offset_Wide:
  "show_offset Wide d = fixed_digits 16 16 (joined_offset Wide d)"
proof -
  let ?h = "unat (offset_high d)" and ?m = "unat (offset_middle d)" and ?l = "unat (offset_low d)"
  have h: "?h < 16 ^ 8" and m: "?m < 16 ^ 4" and l: "?l < 16 ^ 4"
    using u32_lt [of "offset_high d"] u16_lt [of "offset_middle d"] u16_lt [of "offset_low d"]
    by simp_all
  have "fixed_digits 16 (8 + 4) (?h * 16 ^ 4 + ?m) = fixed_digits 16 8 ?h @ fixed_digits 16 4 ?m"
    using m by (intro fixed_digits_append) simp_all
  moreover have "fixed_digits 16 ((8 + 4) + 4) ((?h * 16 ^ 4 + ?m) * 16 ^ 4 + ?l)
      = fixed_digits 16 (8 + 4) (?h * 16 ^ 4 + ?m) @ fixed_digits 16 4 ?l"
    using l by (intro fixed_digits_append) simp_all
  moreover have "(?h * 16 ^ 4 + ?m) * 16 ^ 4 + ?l = joined_offset Wide d"
    by (simp add: joined_offset_def)
  moreover have "(8 + 4) + 4 = (16 :: nat)" by simp
  ultimately have "fixed_digits 16 16 (joined_offset Wide d)
      = fixed_digits 16 8 ?h @ fixed_digits 16 4 ?m @ fixed_digits 16 4 ?l"
    by (simp only: append_assoc)
  then show ?thesis
    using h m l by (simp add: show_offset_def fmt_X_fixed)
qed

lemma show_offset_Narrow:
  "show_offset Narrow d = fixed_digits 16 8 (joined_offset Narrow d)"
proof -
  have "joined_offset Narrow d = unat ((word_b d AND 0xFFFF0000) + ucast (limit0 d))"
    by (simp add: joined_offset_def narrow_offset)
  moreover have "unat ((word_b d AND 0xFFFF0000) + ucast (limit0 d)) < 16 ^ 8"
    using u32_lt [of "(word_b d AND 0xFFFF0000) + ucast (limit0 d)"] by simp
  ultimately show ?thesis
    by (simp add: show_offset_def fmt_X_fixed)
qed

lemma joined_offset_lt:
  "joined_offset lay d < 2 ^ (case lay of Wide \<Rightarrow> 64 | Narrow \<Rightarrow> 32)"
proof (cases lay)
  case Wide
  have "unat (offset_high d) \<le> 4294967295" "unat (offset_middle d) \<le> 65535"
    "unat (offset_low d) \<le> 65535"
    using u32_lt [of "offset_high d"] u16_lt [of "offset_middle d"] u16_lt [of "offset_low d"]
    by simp_all
  then show ?thesis by (simp add: Wide joined_offset_def)
next
  case Narrow
  have "joined_offset Narrow d = unat ((word_b d AND 0xFFFF0000) + ucast (limit0 d))"
    by (simp add: joined_offset_def narrow_offset)
  with u32_lt [of "(word_b d AND 0xFFFF0000) + ucast (limit0 d)"] show ?thesis
    by (simp add: Narrow)
qed

text \<open>
  Claim C8. Under either layout the offset that \<open>idt_show\<close> prints at the end of an
  entry's line is one number written in hexadecimal: the split offset fields of the
  entry put one after the other, the most significant first (high, middle, low under
  the wide layout, in 16 digits; the upper half of \<open>b\<close> and \<open>limit0\<close> under the narrow
  layout, in 8 digits).
\<close>

theorem idt_show_offset:
  "show_offset lay d
     = fixed_digits 16 (case lay of Wide \<Rightarrow> 16 | Narrow \<Rightarrow> 8) (joined_offset lay d)
   \<and> show_offset lay d = fmt_X (case lay of Wide \<Rightarrow> 16 | Narrow \<Rightarrow> 8) (joined_offset lay d)
   \<and> joined_offset lay d < 2 ^ (case lay of Wide \<Rightarrow> 64 | Narrow \<Rightarrow> 32)
   \<and> (\<exists>line. show_gate lay c entry d = line @ show_offset lay d)"
proof -
  have 1: "show_offset lay d
     = fixed_digits 16 (case lay of Wide \<Rightarrow> 16 | Narrow \<Rightarrow> 8) (joined_offset lay d)"
    by (cases lay) (simp_all add: show_offset_Wide show_offset_Narrow)
  have 3: "joined_offset lay d < 2 ^ (case lay of Wide \<Rightarrow> 64 | Narrow \<Rightarrow> 32)"
    by (rule joined_offset_lt)
  have 2: "show_offset lay d
     = fmt_X (case lay of Wide \<Rightarrow> 16 | Narrow \<Rightarrow> 8) (joined_offset lay d)"
    unfolding 1 using 3 by (cases lay) (simp_all add: fmt_X_fixed)
  have 4: "\<exists>line. show_gate lay c entry d = line @ show_offset lay d"
  proof (cases lay)
    case Wide
    show ?thesis unfolding show_gate_def Wide layout.case
      by (rule exI [of _ "''\<newline>0x'' @ fmt_X 2 entry @ '':''
            @ '' '' @ fmt_X 16 (unat (raw_hi d)) @ fmt_X 16 (unat (raw_lo d))
            @ '' '' @ idt_print_type c (gate_type d)
            @ '' '' @ fmt_X 0 (unat (dpl d))
            @ ''   '' @ [if p_bit d \<noteq> 0 then CHR ''+'' else CHR ''-'']
            @ '' '' @ fmt_X 0 (unat (ist d))
            @ ''   '' @ fmt_X 4 (unat (segment d)) @ '' ''"]) simp
  next
    case Narrow
    show ?thesis unfolding show_gate_def Narrow layout.case
      by (rule exI [of _ "''\<newline>0x'' @ fmt_X 2 entry @ '':''
            @ '' '' @ fmt_X 8 (unat (word_b d)) @ fmt_X 8 (unat (word_a d))
            @ '' '' @ idt_print_type c (gate_type d)
            @ '' '' @ fmt_X 0 (unat (dpl d))
            @ ''   '' @ [if p_bit d \<noteq> 0 then CHR ''+'' else CHR ''-'']
            @ '' '' @ fmt_X 4 (unat (base0 d)) @ '' ''"]) simp
  qed
  show ?thesis by (intro conjI 1 2 3 4)
qed

text \<open>
  Claim C7. \<open>idt_setup\<close> sets the entry count to the size held in the IDTR plus one,
  divided by the stride, 16 bytes under the wide layout and 8 under the narrow one;
  the sum does not wrap. \<open>idt_show\<close> prints one line for each entry number below it.
\<close>

theorem idt_setup_entry_count:
  "num_idt_entries (snd (idt_setup lay idtr g))
     = int ((unat (dtr_size idtr) + 1) div (case lay of Wide \<Rightarrow> 16 | Narrow \<Rightarrow> 8))
   \<and> dtr (snd (idt_setup lay idtr g)) = idtr
   \<and> snd (idt_show lay c idtr table g) = snd (idt_setup lay idtr g)
   \<and> fst (idt_show lay c idtr table g)
       = fst (idt_setup lay idtr g)
         @ (case lay of
              Wide \<Rightarrow> ''\<newline>      HEX                              TYPE      DPL P IST SEGM OFFSET''
            | Narrow \<Rightarrow> ''\<newline>      HEX              TYPE      DPL P SEGM OFFSET'')
         @ concat (map (\<lambda>entry. show_gate lay c entry (table entry))
             [0..<(unat (dtr_size idtr) + 1) div (case lay of Wide \<Rightarrow> 16 | Narrow \<Rightarrow> 8)])
         @ ''\<newline>\<newline>''"
proof -
  have n: "num_idt_entries (snd (idt_setup lay idtr g))
     = int ((unat (dtr_size idtr) + 1) div (case lay of Wide \<Rightarrow> 16 | Narrow \<Rightarrow> 8))"
    by (cases lay) (simp_all add: idt_setup_def IDT_ENTRY_BYTES_def Let_def zdiv_int)
  show ?thesis
    using n by (simp add: idt_show_def split_beta) (simp add: idt_setup_def Let_def)
qed


text \<open>
  An IDTR of size \<open>0xFFF\<close> gives 256 entries under the wide layout and 512 under the
  narrow one; the largest size, \<open>0xFFFF\<close>, gives 4096 and 8192.
\<close>

theorem idt_setup_entry_count_witness:
  "num_idt_entries (snd (idt_setup Wide demo_idtr demo_idt_globals)) = 256
   \<and> num_idt_entries (snd (idt_setup Narrow demo_idtr demo_idt_globals)) = 512
   \<and> num_idt_entries (snd (idt_setup Wide (demo_idtr\<lparr>dtr_size := 0xFFFF\<rparr>) demo_idt_globals)) = 4096
   \<and> num_idt_entries (snd (idt_setup Narrow (demo_idtr\<lparr>dtr_size := 0xFFFF\<rparr>) demo_idt_globals)) = 8192"
  using idt_setup_entry_count [of Wide demo_idtr demo_idt_globals]
    idt_setup_entry_count [of Narrow demo_idtr demo_idt_globals]
    idt_setup_entry_count [of Wide "demo_idtr\<lparr>dtr_size := 0xFFFF\<rparr>" demo_idt_globals]
    idt_setup_entry_count [of Narrow "demo_idtr\<lparr>dtr_size := 0xFFFF\<rparr>" demo_idt_globals]
  by (simp add: demo_idtr_def)

text \<open>The sample gate under both layouts.\<close>

theorem idt_show_offset_witness:
  "joined_offset Wide demo_gate = 0xFFFFFFFF81000ABC
   \<and> show_offset Wide demo_gate = ''FFFFFFFF81000ABC''
   \<and> joined_offset Narrow demo_gate = 0xC0DE0ABC
   \<and> show_offset Narrow demo_gate = ''C0DE0ABC''
   \<and> show_gate Wide demo_codes 0 demo_gate
       = ''\<newline>0x00: 00000000FFFFFFFF81008E0000100ABC interrupt 0   + 0   0010 FFFFFFFF81000ABC''"
proof -
  have w: "joined_offset Wide demo_gate = 0xFFFFFFFF81000ABC"
    by (simp add: joined_offset_def demo_gate_def)
  have n: "joined_offset Narrow demo_gate = 0xC0DE0ABC"
    by (simp add: joined_offset_def demo_gate_def drop_bit_eq_div)
  from idt_show_offset [of Wide demo_gate demo_codes 0, unfolded layout.case]
  have "show_offset Wide demo_gate = fmt_X 16 (joined_offset Wide demo_gate)"
    by blast
  then have 1: "show_offset Wide demo_gate = ''FFFFFFFF81000ABC''"
    unfolding w by (simp add: fmt_eval)
  from idt_show_offset [of Narrow demo_gate demo_codes 0, unfolded layout.case]
  have "show_offset Narrow demo_gate = fmt_X 8 (joined_offset Narrow demo_gate)"
    by blast
  then have 2: "show_offset Narrow demo_gate = ''C0DE0ABC''"
    unfolding n by (simp add: fmt_eval)
  have 3: "show_gate Wide demo_codes 0 demo_gate
       = ''\<newline>0x00: 00000000FFFFFFFF81008E0000100ABC interrupt 0   + 0   0010 FFFFFFFF81000ABC''"
    unfolding show_gate_def layout.case 1
    by (simp add: demo_gate_def demo_codes_def idt_print_type_def fmt_eval)
  show ?thesis by (intro conjI w 1 n 2 3)
qed


end
